theory Spec2Isabelle
  imports Main
begin

section \<open>The event binder of the dispatcher (src/dispatcher/binder.js)\<close>

text \<open>
  A shallow embedding of \<^verbatim>\<open>binder.js\<close>: the event descriptor resolver
  (\<^verbatim>\<open>getEventTargetByOldLogic\<close>, \<^verbatim>\<open>getEventStage\<close>,
  \<^verbatim>\<open>getEventTargetByEventName\<close>, \<^verbatim>\<open>getEventInfo\<close>,
  \<^verbatim>\<open>prettifyEventParameter\<close>, \<^verbatim>\<open>isEventEmitalbe\<close>,
  \<^verbatim>\<open>checkEventEmitParameter\<close>) and the class \<^verbatim>\<open>Binder\<close>.
  Mutation of \<^verbatim>\<open>this\<close>, of the dispatcher and of the DOM is explicit
  state passing; a thrown error is a value; the closures the binder registers as native
  listeners are values that carry the identity of their allocation.
\<close>

subsection \<open>Values\<close>

text \<open>The seven kinds of \<^verbatim>\<open>this.kinds\<close> (the flow type \<^verbatim>\<open>binderTarget\<close>).\<close>

datatype binderTarget = Kernel | Container | Wrapper | Video | VideoDom | Plugin | EsFullscreen

text \<open>The flow type \<^verbatim>\<open>eventStage\<close>: the strings before, after, main and _.\<close>

datatype eventStage = StageBefore | StageAfter | StageMain | StageUnderscore

text \<open>
  JavaScript values, as far as the binder inspects them: a handler may be anything
  (\<^verbatim>\<open>isFunction(fn)\<close>), and the name and id of an emission are checked at run time
  (\<^verbatim>\<open>isString\<close>, truthiness). A function or object carries its identity.
\<close>

datatype jsval = JUndefined | JNull | JBool bool | JNum int | JStr string | JObj nat | JFun nat

fun truthy :: "jsval \<Rightarrow> bool" where
  "truthy JUndefined = False"
| "truthy JNull = False"
| "truthy (JBool b) = b"
| "truthy (JNum n) = (n \<noteq> 0)"
| "truthy (JStr s) = (s \<noteq> [])"
| "truthy (JObj _) = True"
| "truthy (JFun _) = True"

fun isString :: "jsval \<Rightarrow> bool" where
  "isString (JStr _) = True"
| "isString _ = False"

fun isFunction :: "jsval \<Rightarrow> bool" where
  "isFunction (JFun _) = True"
| "isFunction _ = False"

fun typeof :: "jsval \<Rightarrow> string" where
  "typeof JUndefined = ''undefined''"
| "typeof JNull = ''object''"
| "typeof (JBool _) = ''boolean''"
| "typeof (JNum _) = ''number''"
| "typeof (JStr _) = ''string''"
| "typeof (JObj _) = ''object''"
| "typeof (JFun _) = ''function''"

datatype error = Error string | TypeError

datatype logEntry = LogWarn string | LogError string

fun targetString :: "binderTarget \<Rightarrow> string" where
  "targetString Kernel = ''kernel''"
| "targetString Container = ''container''"
| "targetString Wrapper = ''wrapper''"
| "targetString Video = ''video''"
| "targetString VideoDom = ''video-dom''"
| "targetString Plugin = ''plugin''"
| "targetString EsFullscreen = ''esFullscreen''"

subsection \<open>What the file imports\<close>

text \<open>
  The tables of \<^verbatim>\<open>helper/const\<close>, \<^verbatim>\<open>camelize\<close> of chimee-helper and the
  build flag \<^verbatim>\<open>process.env.NODE_ENV\<close> are not part of the file: they are
  parameters of the model, and every theorem holds for all of them.
\<close>

record env =
  videoEvents :: "string list"
  domEvents :: "string list"
  kernelEvents :: "string list"
  passiveEvents :: "string list"
  esFullscreenEvents :: "string list"
  mustListenVideoDomEvents :: "string list"
  camelize :: "string \<Rightarrow> string"
  production :: bool

subsection \<open>The event descriptor resolver\<close>

text \<open>The descriptor as the caller gives it (\<^verbatim>\<open>rawEventInfo\<close>).\<close>

record rawEventInfo =
  raw_name :: string
  raw_target :: "binderTarget option"
  raw_stage :: "eventStage option"
  raw_id :: string
  raw_fn :: jsval

text \<open>The resolved descriptor (\<^verbatim>\<open>additionalEventInfo\<close>).\<close>

record eventInfo =
  ev_name :: string
  ev_stage :: eventStage
  ev_target :: binderTarget

text \<open>With the subscriber (\<^verbatim>\<open>wholeEventInfo\<close>).\<close>

record wholeEventInfo = eventInfo +
  ev_id :: string
  ev_fn :: jsval

text \<open>\<^verbatim>\<open>new RegExp('^(c|w)_')\<close>: the name starts with c_ or w_.\<close>

definition targetKeyReg :: "string \<Rightarrow> bool" where
  "targetKeyReg s = (take 2 s = ''c_'' \<or> take 2 s = ''w_'')"

text \<open>
  \<^verbatim>\<open>secondaryReg = /^(before|after|_)/\<close>: the matched prefix
  (\<^verbatim>\<open>matches[0]\<close>), or \<open>None\<close> for \<^verbatim>\<open>null\<close>.
\<close>

definition secondaryReg :: "string \<Rightarrow> string option" where
  "secondaryReg s =
     (if take 6 s = ''before'' then Some ''before''
      else if take 5 s = ''after'' then Some ''after''
      else if take 1 s = ''_'' then Some ''_''
      else None)"

fun stageOfPrefix :: "string \<Rightarrow> eventStage" where
  "stageOfPrefix m =
     (if m = ''before'' then StageBefore
      else if m = ''after'' then StageAfter
      else if m = ''_'' then StageUnderscore
      else StageMain)"

definition oldNameWarning :: "string \<Rightarrow> string \<Rightarrow> binderTarget \<Rightarrow> string" where
  "oldNameWarning oldName name target =
     ''We no longer support event names like '' @ oldName @ ''. Please use '' @ name @
     '' and options like { target: '' @ [CHR 0x27] @ targetString target @ [CHR 0x27] @
     '' } instead''"

text \<open>
  \<^verbatim>\<open>getEventTargetByOldLogic\<close>: the translated name and target (\<open>None\<close> for
  \<^verbatim>\<open>false\<close>), and what it logs.
\<close>

definition getEventTargetByOldLogic ::
  "env \<Rightarrow> string \<Rightarrow> (string \<times> binderTarget) option \<times> logEntry list" where
  "getEventTargetByOldLogic E oldName =
     (if targetKeyReg oldName then
        (let name = drop 2 oldName;
             target = (if take 1 oldName = ''c'' then Container else Wrapper)
         in (Some (name, target),
             if \<not> production E then [LogWarn (oldNameWarning oldName name target)] else []))
      else if oldName = ''error'' then (Some (''error'', Kernel), [])
      else (None, []))"

definition getEventStage :: "env \<Rightarrow> string \<Rightarrow> string \<times> eventStage" where
  "getEventStage E name =
     (case secondaryReg name of
        None \<Rightarrow> (name, StageMain)
      | Some m \<Rightarrow> (camelize E (drop (length m) name), stageOfPrefix m))"

definition getEventTargetByEventName :: "env \<Rightarrow> string \<Rightarrow> binderTarget" where
  "getEventTargetByEventName E name =
     (if name \<in> set (videoEvents E) then Video
      else if name \<in> set (kernelEvents E) then Kernel
      else if name \<in> set (domEvents E) then VideoDom
      else if name \<in> set (esFullscreenEvents E) then EsFullscreen
      else Plugin)"

definition getEventInfo ::
  "env \<Rightarrow> string \<Rightarrow> binderTarget option \<Rightarrow> eventStage option \<Rightarrow> eventInfo \<times> logEntry list" where
  "getEventInfo E name target stage =
     (let (oldInfo, warned) = getEventTargetByOldLogic E name;
          (name1, target1) =
             (case oldInfo of Some (n, t) \<Rightarrow> (n, Some t) | None \<Rightarrow> (name, target));
          (newName, newStage) = getEventStage E name1;
          target2 =
             (case target1 of None \<Rightarrow> getEventTargetByEventName E newName | Some t \<Rightarrow> t)
      in (\<lparr>ev_name = newName,
           ev_stage = (case stage of Some st \<Rightarrow> st | None \<Rightarrow> newStage),
           ev_target = target2\<rparr>, warned))"

definition functionError :: "string \<Rightarrow> jsval \<Rightarrow> error" where
  "functionError name fn =
     Error (''You must provide a function to handle with event '' @ name @ '', but not '' @
            typeof fn)"

text \<open>
  \<^verbatim>\<open>prettifyEventParameter\<close>: the resolver runs first (and may log), then the
  handler is checked.
\<close>

definition prettifyEventParameter ::
  "env \<Rightarrow> rawEventInfo \<Rightarrow> (error + wholeEventInfo) \<times> logEntry list" where
  "prettifyEventParameter E info =
     (let (r, warned) = getEventInfo E (raw_name info) (raw_target info) (raw_stage info)
      in if \<not> isFunction (raw_fn info) then (Inl (functionError (ev_name r) (raw_fn info)), warned)
         else (Inr \<lparr>ev_name = ev_name r, ev_stage = ev_stage r, ev_target = ev_target r,
                    ev_id = raw_id info, ev_fn = raw_fn info\<rparr>, warned))"

subsection \<open>Emission requests\<close>

text \<open>The descriptor of an emission (\<^verbatim>\<open>emitEventInfo\<close>), unchecked.\<close>

record emitEventInfo =
  emit_name :: jsval
  emit_id :: jsval
  emit_target :: "binderTarget option"
  emit_stage :: "eventStage option"

definition illegalNameMessage :: string where
  "illegalNameMessage =
     ''You must provide a legal event name, which is string and could not started with before/after/_''"

definition illegalIdMessage :: string where
  "illegalIdMessage = ''You must provide the id of emitter''"

text \<open>
  \<^verbatim>\<open>isEventEmitalbe\<close>: \<^verbatim>\<open>secondaryReg.test(name)\<close> is only reached for a
  string, the disjunction being evaluated from the left.
\<close>

definition isEventEmitalbe :: "emitEventInfo \<Rightarrow> bool \<times> logEntry list" where
  "isEventEmitalbe info =
     (if \<not> truthy (emit_name info) \<or> \<not> isString (emit_name info) \<or>
         (case emit_name info of JStr n \<Rightarrow> secondaryReg n \<noteq> None | _ \<Rightarrow> False)
      then (False, [LogError illegalNameMessage])
      else if \<not> truthy (emit_id info) \<or> \<not> isString (emit_id info)
      then (False, [LogError illegalIdMessage])
      else (True, []))"

text \<open>
  \<^verbatim>\<open>checkEventEmitParameter\<close>: only the target of the resolved descriptor is
  written back; the name stays as given. A name that is not a string would make
  \<^verbatim>\<open>oldName.match\<close> throw.
\<close>

definition checkEventEmitParameter ::
  "env \<Rightarrow> emitEventInfo \<Rightarrow> (error + emitEventInfo) \<times> logEntry list" where
  "checkEventEmitParameter E info =
     (case emit_name info of
        JStr n \<Rightarrow>
          (let (r, warned) = getEventInfo E n (emit_target info) (emit_stage info)
           in (Inr (info\<lparr>emit_target := Some (ev_target r)\<rparr>), warned))
      | _ \<Rightarrow> (Inl TypeError, []))"

subsection \<open>Relays, the native sources and the bus\<close>

datatype dispatchMode = Emit | EmitSync | Trigger | TriggerSync

text \<open>
  The closures the binder registers as native listeners. \<open>Forward m target name id\<close> is
  \<^verbatim>\<open>(...args) => this.m({ target, name, id }, ...args)\<close>; \<open>MouseMove name\<close> is the
  closure of \<^verbatim>\<open>listenOnMouseMoveEvent\<close>. Listeners are removed by identity, so a
  relay carries the number of its allocation.
\<close>

datatype relayBody = Forward dispatchMode binderTarget string string | MouseMove string

datatype relay = Relay nat relayBody

type_synonym node = nat

text \<open>A native DOM event, as far as the binder reads it.\<close>

record domEvent =
  toElement :: "node option"
  currentTarget :: node
  relatedTarget :: "node option"
  evtype :: string

datatype arg = EventObj domEvent | Value jsval

text \<open>
  Modelled from the spec: the attachment primitives (\<^verbatim>\<open>addEvent\<close> and
  \<^verbatim>\<open>removeEvent\<close> of chimee-helper, \<^verbatim>\<open>on\<close> and \<^verbatim>\<open>off\<close> of the
  media engine) are not in the sources. Attach and detach are keyed by the name and the
  identity of the listener; attaching twice and detaching an absent listener do nothing.
  A DOM listener records the passive hint it was attached with.
\<close>

type_synonym listener = "string \<times> relay \<times> bool"

definition attach :: "string \<Rightarrow> relay \<Rightarrow> bool \<Rightarrow> listener list \<Rightarrow> listener list" where
  "attach key fn passive ls =
     (if (key, fn) \<in> set (map (\<lambda>(k, f, p). (k, f)) ls) then ls else ls @ [(key, fn, passive)])"

definition detach :: "string \<Rightarrow> relay \<Rightarrow> listener list \<Rightarrow> listener list" where
  "detach key fn ls = filter (\<lambda>(k, f, p). \<not> (k = key \<and> f = fn)) ls"

text \<open>
  Modelled from the spec: the per-target bus (\<^verbatim>\<open>./bus\<close> is not in the
  sources). It stores the subscribers, keyed by name, stage and id, tells for a name
  whether any subscriber remains (\<^verbatim>\<open>isEmpty(bus.events[name])\<close>), and dispatches;
  a dispatch is recorded, its delivery to the subscribers is the bus's own business.
\<close>

record subscriber =
  sub_id :: string
  sub_name :: string
  sub_fn :: jsval
  sub_stage :: eventStage
  sub_once :: bool

record bus =
  events :: "subscriber list"
  dispatched :: "(dispatchMode \<times> string \<times> arg list) list"

definition bus_on :: "string \<Rightarrow> string \<Rightarrow> jsval \<Rightarrow> eventStage \<Rightarrow> bus \<Rightarrow> bus" where
  "bus_on i name fn stage b =
     b\<lparr>events := events b @
        [\<lparr>sub_id = i, sub_name = name, sub_fn = fn, sub_stage = stage, sub_once = False\<rparr>]\<rparr>"

definition bus_once :: "string \<Rightarrow> string \<Rightarrow> jsval \<Rightarrow> eventStage \<Rightarrow> bus \<Rightarrow> bus" where
  "bus_once i name fn stage b =
     b\<lparr>events := events b @
        [\<lparr>sub_id = i, sub_name = name, sub_fn = fn, sub_stage = stage, sub_once = True\<rparr>]\<rparr>"

fun removeSubscriber ::
  "string \<Rightarrow> string \<Rightarrow> jsval \<Rightarrow> eventStage \<Rightarrow> subscriber list \<Rightarrow> subscriber list" where
  "removeSubscriber i name fn stage [] = []"
| "removeSubscriber i name fn stage (s # ss) =
     (if sub_id s = i \<and> sub_name s = name \<and> sub_fn s = fn \<and> sub_stage s = stage then ss
      else s # removeSubscriber i name fn stage ss)"

definition bus_off :: "string \<Rightarrow> string \<Rightarrow> jsval \<Rightarrow> eventStage \<Rightarrow> bus \<Rightarrow> bus" where
  "bus_off i name fn stage b = b\<lparr>events := removeSubscriber i name fn stage (events b)\<rparr>"

definition subscribersOf :: "bus \<Rightarrow> string \<Rightarrow> subscriber list" where
  "subscribersOf b name = filter (\<lambda>s. sub_name s = name) (events b)"

definition bus_dispatch :: "dispatchMode \<Rightarrow> string \<Rightarrow> arg list \<Rightarrow> bus \<Rightarrow> bus" where
  "bus_dispatch m name args b = b\<lparr>dispatched := dispatched b @ [(m, name, args)]\<rparr>"

subsection \<open>The state\<close>

text \<open>
  \<^verbatim>\<open>this.__dispatcher.dom\<close>: the nodes of the player, the extended nodes, the
  containment flag and the containment test (a parameter: the DOM collaborator is not in
  the sources).
\<close>

record domState =
  container :: node
  wrapper :: node
  videoElement :: node
  videoExtendedNodes :: "node list"
  mouseInVideo :: bool
  isNodeInsideVideo :: "node option \<Rightarrow> bool"

text \<open>
  The binder with what it reaches: its four tables, the media engine of the dispatcher
  (\<open>None\<close> while \<^verbatim>\<open>this.__dispatcher.kernel\<close> is undefined) with the listeners it
  holds, the DOM of the dispatcher, the listeners of every node, the number of closures
  allocated so far and the log.
\<close>

record binderState =
  bindedEventNames :: "binderTarget \<Rightarrow> string list"
  bindedEventInfo :: "binderTarget \<Rightarrow> (string \<times> relay) list"
  buses :: "binderTarget \<Rightarrow> bus"
  pendingEventsInfo :: "binderTarget \<Rightarrow> (string \<times> string) list"
  kernel :: "listener list option"
  dom_d :: domState
  nodeListeners :: "node \<Rightarrow> listener list"
  allocated :: nat
  logged :: "logEntry list"

definition kinds :: "binderTarget list" where
  "kinds = [Kernel, Container, Wrapper, Video, VideoDom, Plugin, EsFullscreen]"

text \<open>The constructor, for a dispatcher with the given engine and DOM.\<close>

definition newBinder :: "listener list option \<Rightarrow> domState \<Rightarrow> (node \<Rightarrow> listener list) \<Rightarrow> binderState" where
  "newBinder k d ls =
     \<lparr>bindedEventNames = (\<lambda>_. []), bindedEventInfo = (\<lambda>_. []),
      buses = (\<lambda>_. \<lparr>events = [], dispatched = []\<rparr>), pendingEventsInfo = (\<lambda>_. []),
      kernel = k, dom_d = d, nodeListeners = ls, allocated = 0, logged = []\<rparr>"

definition addLog :: "logEntry list \<Rightarrow> binderState \<Rightarrow> binderState" where
  "addLog es s = s\<lparr>logged := logged s @ es\<rparr>"

subsection \<open>Results and the decorators\<close>

text \<open>
  What a method returns: \<^verbatim>\<open>undefined\<close>, \<^verbatim>\<open>false\<close>, or whatever the bus
  returned. A method either returns or throws, and leaves a state in both cases.
\<close>

datatype retval = Undefined | BoolFalse | FromBus

type_synonym outcome = "(error + retval) \<times> binderState"

text \<open>
  Modelled from the spec: the decorators of toxic-decorators are not in the sources.
  \<^verbatim>\<open>@before(f)\<close> runs the normaliser \<open>f\<close> on the argument first and calls the
  method with what it returns; \<^verbatim>\<open>@runnable(guard, { backup })\<close> calls the method
  only when the guard accepts the argument, and returns the backup's value
  (\<^verbatim>\<open>undefined\<close> without a backup) otherwise.
\<close>

definition before ::
  "('a \<Rightarrow> (error + 'b) \<times> logEntry list) \<Rightarrow> ('b \<Rightarrow> binderState \<Rightarrow> outcome) \<Rightarrow>
   'a \<Rightarrow> binderState \<Rightarrow> outcome" where
  "before f method info s =
     (case f info of
        (Inl e, logs) \<Rightarrow> (Inl e, addLog logs s)
      | (Inr info', logs) \<Rightarrow> method info' (addLog logs s))"

definition runnable ::
  "('a \<Rightarrow> bool \<times> logEntry list) \<Rightarrow> retval \<Rightarrow> ('a \<Rightarrow> binderState \<Rightarrow> outcome) \<Rightarrow>
   'a \<Rightarrow> binderState \<Rightarrow> outcome" where
  "runnable guard backup method info s =
     (case guard info of
        (True, logs) \<Rightarrow> method info (addLog logs s)
      | (False, logs) \<Rightarrow> (Inr backup, addLog logs s))"

subsection \<open>The private methods of the class\<close>

text \<open>\<^verbatim>\<open>indexOf\<close>, with \<open>None\<close> for \<open>-1\<close>, and \<^verbatim>\<open>splice(i, 1)\<close>.\<close>

fun indexOf :: "'a list \<Rightarrow> 'a \<Rightarrow> nat option" where
  "indexOf [] x = None"
| "indexOf (y # ys) x = (if y = x then Some 0 else map_option Suc (indexOf ys x))"

definition splice1 :: "nat \<Rightarrow> 'a list \<Rightarrow> 'a list" where
  "splice1 i xs = take i xs @ drop (Suc i) xs"

definition addEvent :: "node \<Rightarrow> string \<Rightarrow> relay \<Rightarrow> bool \<Rightarrow> binderState \<Rightarrow> binderState" where
  "addEvent element key fn passive s =
     s\<lparr>nodeListeners := (nodeListeners s)(element := attach key fn passive (nodeListeners s element))\<rparr>"

definition removeEvent :: "node \<Rightarrow> string \<Rightarrow> relay \<Rightarrow> binderState \<Rightarrow> binderState" where
  "removeEvent element key fn s =
     s\<lparr>nodeListeners := (nodeListeners s)(element := detach key fn (nodeListeners s element))\<rparr>"

text \<open>\<^verbatim>\<open>_addEventOnDom\<close>.\<close>

definition addEventOnDom :: "env \<Rightarrow> node \<Rightarrow> string \<Rightarrow> relay \<Rightarrow> binderState \<Rightarrow> binderState" where
  "addEventOnDom E element key fn s =
     (if key \<in> set (passiveEvents E) then addEvent element key fn True s
      else addEvent element key fn False s)"

text \<open>\<^verbatim>\<open>_getTargetDom\<close>.\<close>

definition getTargetDom :: "binderState \<Rightarrow> binderTarget \<Rightarrow> node" where
  "getTargetDom s target =
     (case target of
        Container \<Rightarrow> container (dom_d s)
      | Wrapper \<Rightarrow> wrapper (dom_d s)
      | _ \<Rightarrow> videoElement (dom_d s))"

text \<open>\<^verbatim>\<open>_isEventNeedToBeHandled\<close>.\<close>

definition isEventNeedToBeHandled :: "env \<Rightarrow> binderTarget \<Rightarrow> string \<Rightarrow> bool" where
  "isEventNeedToBeHandled E target name =
     (target \<noteq> Plugin \<and> target \<noteq> EsFullscreen \<and>
      (name \<notin> set (mustListenVideoDomEvents E) \<or> target \<noteq> Video))"

definition addPendingEvent :: "binderTarget \<Rightarrow> string \<Rightarrow> string \<Rightarrow> binderState \<Rightarrow> binderState" where
  "addPendingEvent target name i s =
     s\<lparr>pendingEventsInfo := (pendingEventsInfo s)(target := pendingEventsInfo s target @ [(name, i)])\<rparr>"

text \<open>Allocating a closure, and the two pushes that record a relay.\<close>

definition newRelay :: "relayBody \<Rightarrow> binderState \<Rightarrow> relay \<times> binderState" where
  "newRelay body s = (Relay (allocated s) body, s\<lparr>allocated := Suc (allocated s)\<rparr>)"

definition pushBinded :: "binderTarget \<Rightarrow> string \<Rightarrow> relay \<Rightarrow> binderState \<Rightarrow> binderState" where
  "pushBinded target name fn s =
     s\<lparr>bindedEventNames := (bindedEventNames s)(target := bindedEventNames s target @ [name]),
       bindedEventInfo := (bindedEventInfo s)(target := bindedEventInfo s target @ [(name, fn)])\<rparr>"

text \<open>
  \<^verbatim>\<open>_addEventListenerOnTarget\<close>. The first guard has returned for the targets
  plugin and esFullscreen, so the chain of target tests always takes one of its branches.
\<close>

definition addEventListenerOnTarget ::
  "env \<Rightarrow> string \<Rightarrow> binderTarget \<Rightarrow> string \<Rightarrow> binderState \<Rightarrow> binderState" where
  "addEventListenerOnTarget E name target i s =
     (if \<not> isEventNeedToBeHandled E target name then s
      else if name \<in> set (bindedEventNames s target) then s
      else
        (let targetDom = getTargetDom s target in
         if target = Kernel then
           (case kernel s of
              None \<Rightarrow> addPendingEvent target name i s
            | Some ls \<Rightarrow>
                (let (fn, s1) = newRelay (Forward TriggerSync target name ''kernel'') s
                 in pushBinded target name fn (s1\<lparr>kernel := Some (attach name fn False ls)\<rparr>)))
         else if target = Container \<or> target = Wrapper then
           (let (fn, s1) = newRelay (Forward TriggerSync target name (targetString target)) s
            in pushBinded target name fn (addEventOnDom E targetDom name fn s1))
         else if target = Video then
           (let (fn, s1) = newRelay (Forward Trigger target name (targetString target)) s
            in pushBinded target name fn (addEventOnDom E targetDom name fn s1))
         else if target = VideoDom then
           (let (fn, s1) = newRelay (Forward TriggerSync target name (targetString target)) s;
                s2 = fold (\<lambda>node. addEventOnDom E node name fn) (videoExtendedNodes (dom_d s1)) s1
            in pushBinded target name fn (addEventOnDom E targetDom name fn s2))
         else s))"

text \<open>The loop that fetches the relay of a name with its index.\<close>

fun findBinded :: "(string \<times> relay) list \<Rightarrow> string \<Rightarrow> (nat \<times> relay) option" where
  "findBinded [] name = None"
| "findBinded ((n, f) # xs) name =
     (if n = name then Some (0, f)
      else map_option (\<lambda>(i, g). (Suc i, g)) (findBinded xs name))"

text \<open>
  \<^verbatim>\<open>_removeEventListenerOnTargetWhenIsUseless\<close>: \<open>Some e\<close> when it throws
  (\<^verbatim>\<open>this.__dispatcher.kernel.off\<close> without an engine).
\<close>

definition removeEventListenerOnTargetWhenIsUseless ::
  "env \<Rightarrow> string \<Rightarrow> binderTarget \<Rightarrow> binderState \<Rightarrow> error option \<times> binderState" where
  "removeEventListenerOnTargetWhenIsUseless E name target s =
     (if \<not> isEventNeedToBeHandled E target name then (None, s)
      else
        (case indexOf (bindedEventNames s target) name of
           None \<Rightarrow> (None, s)
         | Some nameIndex \<Rightarrow>
             if subscribersOf (buses s target) name \<noteq> [] then (None, s)
             else
               (case findBinded (bindedEventInfo s target) name of
                  None \<Rightarrow> (None, s)
                | Some (index, fn) \<Rightarrow>
                    (case
                       (if target = Kernel then
                          (case kernel s of
                             None \<Rightarrow> Inl TypeError
                           | Some ls \<Rightarrow> Inr (s\<lparr>kernel := Some (detach name fn ls)\<rparr>))
                        else
                          (let s1 = removeEvent (getTargetDom s target) name fn s
                           in if target = VideoDom then
                                Inr (fold (\<lambda>node. removeEvent node name fn)
                                       (videoExtendedNodes (dom_d s1)) s1)
                              else Inr s1))
                     of
                       Inl e \<Rightarrow> (Some e, s)
                     | Inr s2 \<Rightarrow>
                         (None,
                          s2\<lparr>bindedEventInfo :=
                               (bindedEventInfo s2)(target := splice1 index (bindedEventInfo s2 target)),
                             bindedEventNames :=
                               (bindedEventNames s2)(target := splice1 nameIndex (bindedEventNames s2 target))\<rparr>)))))"

subsection \<open>Subscribing and emitting\<close>

definition on :: "env \<Rightarrow> rawEventInfo \<Rightarrow> binderState \<Rightarrow> outcome" where
  "on E =
     before (prettifyEventParameter E)
       (\<lambda>w s.
          (let s1 = addEventListenerOnTarget E (ev_name w) (ev_target w) (ev_id w) s
           in (Inr FromBus,
               s1\<lparr>buses := (buses s1)(ev_target w :=
                     bus_on (ev_id w) (ev_name w) (ev_fn w) (ev_stage w) (buses s1 (ev_target w)))\<rparr>)))"

definition off :: "env \<Rightarrow> rawEventInfo \<Rightarrow> binderState \<Rightarrow> outcome" where
  "off E =
     before (prettifyEventParameter E)
       (\<lambda>w s.
          (let s1 = s\<lparr>buses := (buses s)(ev_target w :=
                          bus_off (ev_id w) (ev_name w) (ev_fn w) (ev_stage w) (buses s (ev_target w)))\<rparr>
           in case removeEventListenerOnTargetWhenIsUseless E (ev_name w) (ev_target w) s1 of
                (Some e, s2) \<Rightarrow> (Inl e, s2)
              | (None, s2) \<Rightarrow> (Inr FromBus, s2)))"

definition once :: "env \<Rightarrow> rawEventInfo \<Rightarrow> binderState \<Rightarrow> outcome" where
  "once E =
     before (prettifyEventParameter E)
       (\<lambda>w s.
          (Inr FromBus,
           s\<lparr>buses := (buses s)(ev_target w :=
                 bus_once (ev_id w) (ev_name w) (ev_fn w) (ev_stage w) (buses s (ev_target w)))\<rparr>))"

text \<open>
  The body of the four emitting methods: \<^verbatim>\<open>this.buses[target].m(name, ...args)\<close>.
  The guard and the normaliser have made the name a string and filled in the target.
\<close>

definition busCall :: "dispatchMode \<Rightarrow> arg list \<Rightarrow> emitEventInfo \<Rightarrow> binderState \<Rightarrow> outcome" where
  "busCall m args info s =
     (case (emit_target info, emit_name info) of
        (Some target, JStr name) \<Rightarrow>
          (Inr FromBus, s\<lparr>buses := (buses s)(target := bus_dispatch m name args (buses s target))\<rparr>)
      | _ \<Rightarrow> (Inl TypeError, s))"

definition emit :: "env \<Rightarrow> emitEventInfo \<Rightarrow> arg list \<Rightarrow> binderState \<Rightarrow> outcome" where
  "emit E info args =
     runnable isEventEmitalbe Undefined
       (before (checkEventEmitParameter E) (busCall Emit args)) info"

definition emitSync :: "env \<Rightarrow> emitEventInfo \<Rightarrow> arg list \<Rightarrow> binderState \<Rightarrow> outcome" where
  "emitSync E info args =
     runnable isEventEmitalbe BoolFalse
       (before (checkEventEmitParameter E) (busCall EmitSync args)) info"

definition trigger :: "env \<Rightarrow> emitEventInfo \<Rightarrow> arg list \<Rightarrow> binderState \<Rightarrow> outcome" where
  "trigger E info args =
     runnable isEventEmitalbe Undefined
       (before (checkEventEmitParameter E) (busCall Trigger args)) info"

definition triggerSync :: "env \<Rightarrow> emitEventInfo \<Rightarrow> arg list \<Rightarrow> binderState \<Rightarrow> outcome" where
  "triggerSync E info args =
     runnable isEventEmitalbe BoolFalse
       (before (checkEventEmitParameter E) (busCall TriggerSync args)) info"

subsection \<open>Replaying the relays on other nodes\<close>

definition bindEventOnPenetrateNode :: "env \<Rightarrow> node \<Rightarrow> bool \<Rightarrow> binderState \<Rightarrow> binderState" where
  "bindEventOnPenetrateNode E node remove s =
     fold (\<lambda>(name, fn). if remove then removeEvent node name fn else addEventOnDom E node name fn)
       (bindedEventInfo s VideoDom) s"

definition bindEventOnVideo :: "env \<Rightarrow> node \<Rightarrow> bool \<Rightarrow> binderState \<Rightarrow> binderState" where
  "bindEventOnVideo E node remove s =
     fold (\<lambda>(name, fn). if remove then removeEvent node name fn else addEventOnDom E node name fn)
       (bindedEventInfo s VideoDom @ bindedEventInfo s Video) s"

text \<open>\<^verbatim>\<open>migrateKernelEvent\<close>: the listeners of the old and of the new engine.\<close>

definition migrateKernelEvent ::
  "binderState \<Rightarrow> listener list \<Rightarrow> listener list \<Rightarrow> listener list \<times> listener list" where
  "migrateKernelEvent s oldKernel newKernel =
     fold (\<lambda>(name, fn) (old, new). (detach name fn old, attach name fn False new))
       (bindedEventInfo s Kernel) (oldKernel, newKernel)"

subsection \<open>The pointer-containment tracker\<close>

text \<open>
  The closure \<^verbatim>\<open>fn\<close> of \<^verbatim>\<open>listenOnMouseMoveEvent\<close> for the name \<open>name\<close>.
  Destructuring \<^verbatim>\<open>args[0]\<close> throws when it is undefined or null, and yields
  undefined fields when it is another value that is not an event.
\<close>

definition mouseMoveFn :: "env \<Rightarrow> string \<Rightarrow> arg list \<Rightarrow> binderState \<Rightarrow> outcome" where
  "mouseMoveFn E name args s =
     (case args of
        [] \<Rightarrow> (Inl TypeError, s)
      | Value v # _ \<Rightarrow> if v = JUndefined \<or> v = JNull then (Inl TypeError, s) else (Inr Undefined, s)
      | EventObj e # _ \<Rightarrow>
          (let to = (case toElement e of Some n \<Rightarrow> Some n | None \<Rightarrow> relatedTarget e);
               d = dom_d s;
               info = \<lparr>emit_name = JStr name, emit_id = JStr ''_vm'',
                       emit_target = Some VideoDom, emit_stage = None\<rparr>
           in if mouseInVideo d \<and> evtype e = ''mouseleave'' \<and> \<not> isNodeInsideVideo d to then
                triggerSync E info args (s\<lparr>dom_d := d\<lparr>mouseInVideo := False\<rparr>\<rparr>)
              else if \<not> mouseInVideo d \<and> evtype e = ''mouseenter'' \<and>
                      isNodeInsideVideo d (Some (currentTarget e)) then
                triggerSync E info args (s\<lparr>dom_d := d\<lparr>mouseInVideo := True\<rparr>\<rparr>)
              else (Inr Undefined, s)))"

definition listenOnMouseMoveEvent :: "env \<Rightarrow> node \<Rightarrow> binderState \<Rightarrow> binderState" where
  "listenOnMouseMoveEvent E node s =
     fold (\<lambda>name s.
             (let (fn, s1) = newRelay (MouseMove name) s;
                  s2 = addEventOnDom E node name fn s1
              in if name \<notin> set (bindedEventNames s2 VideoDom) then pushBinded VideoDom name fn s2
                 else s2))
       (mustListenVideoDomEvents E) s"

text \<open>Calling a relay: what the closure does with its arguments.\<close>

fun callRelay :: "env \<Rightarrow> relay \<Rightarrow> arg list \<Rightarrow> binderState \<Rightarrow> outcome" where
  "callRelay E (Relay _ (MouseMove name)) args s = mouseMoveFn E name args s"
| "callRelay E (Relay _ (Forward m target name i)) args s =
     (let info = \<lparr>emit_name = JStr name, emit_id = JStr i, emit_target = Some target,
                  emit_stage = None\<rparr>
      in case m of
           Emit \<Rightarrow> emit E info args s
         | EmitSync \<Rightarrow> emitSync E info args s
         | Trigger \<Rightarrow> trigger E info args s
         | TriggerSync \<Rightarrow> triggerSync E info args s)"

text \<open>
  Modelled from the spec: a native event on a node (event dispatch is the browser's).
  The listeners attached to the node under the type of the event are called with the
  event, in the order of their attachment.
\<close>

definition nativeEvent :: "env \<Rightarrow> node \<Rightarrow> domEvent \<Rightarrow> binderState \<Rightarrow> binderState" where
  "nativeEvent E node e s =
     fold (\<lambda>(key, fn, passive) s'. snd (callRelay E fn [EventObj e] s'))
       (filter (\<lambda>(key, fn, passive). key = evtype e) (nodeListeners s node)) s"

subsection \<open>Teardown and the pending queue\<close>

text \<open>
  The loop over \<^verbatim>\<open>this.bindedEventInfo.kernel\<close> of \<^verbatim>\<open>destroy\<close>:
  \<^verbatim>\<open>this.__dispatcher.kernel.off\<close> throws when there is no engine.
\<close>

fun kernelOffAll :: "(string \<times> relay) list \<Rightarrow> listener list option \<Rightarrow> error + listener list option" where
  "kernelOffAll [] k = Inr k"
| "kernelOffAll ((name, fn) # xs) k =
     (case k of
        None \<Rightarrow> Inl TypeError
      | Some ls \<Rightarrow> kernelOffAll xs (Some (detach name fn ls)))"

text \<open>One round of the loop over \<^verbatim>\<open>this.kinds\<close>.\<close>

definition destroyTarget :: "binderTarget \<Rightarrow> binderState \<Rightarrow> error + binderState" where
  "destroyTarget target s =
     (case
        (if target = Kernel then
           (case kernelOffAll (bindedEventInfo s Kernel) (kernel s) of
              Inl e \<Rightarrow> Inl e
            | Inr k \<Rightarrow> Inr (s\<lparr>kernel := k\<rparr>))
         else
           (let targetDom = getTargetDom s target
            in Inr (fold (\<lambda>(name, fn) s'.
                            (let s1 = removeEvent targetDom name fn s'
                             in if target = VideoDom then
                                  fold (\<lambda>node. removeEvent node name fn)
                                    (videoExtendedNodes (dom_d s1)) s1
                                else s1))
                      (bindedEventInfo s target) s)))
      of
        Inl e \<Rightarrow> Inl e
      | Inr s1 \<Rightarrow>
          Inr (s1\<lparr>bindedEventInfo := (bindedEventInfo s1)(Kernel := []),
                  bindedEventNames := (bindedEventNames s1)(Kernel := [])\<rparr>))"

fun destroyKinds :: "binderTarget list \<Rightarrow> binderState \<Rightarrow> outcome" where
  "destroyKinds [] s = (Inr Undefined, s)"
| "destroyKinds (target # ts) s =
     (case destroyTarget target s of
        Inl e \<Rightarrow> (Inl e, s)
      | Inr s1 \<Rightarrow> destroyKinds ts s1)"

definition destroy :: "binderState \<Rightarrow> outcome" where
  "destroy s = destroyKinds kinds s"

text \<open>
  The loop of \<^verbatim>\<open>applyPendingEvents\<close>: while the copy is not empty, pop its last
  entry and subscribe it again.
\<close>

function drainPending ::
  "env \<Rightarrow> binderTarget \<Rightarrow> (string \<times> string) list \<Rightarrow> binderState \<Rightarrow> binderState" where
  "drainPending E target pendingEventsCopy s =
     (if pendingEventsCopy = [] then s
      else
        (let (name, i) = last pendingEventsCopy
         in drainPending E target (butlast pendingEventsCopy)
              (addEventListenerOnTarget E name target i s)))"
  by pat_completeness auto
termination
  by (relation "measure (\<lambda>(E, target, copy, s). length copy)") auto

declare drainPending.simps [simp del]

text \<open>
  \<^verbatim>\<open>applyPendingEvents\<close>: \<^verbatim>\<open>splice(0, length)\<close> empties the queue in place and
  returns its entries.
\<close>

definition applyPendingEvents :: "env \<Rightarrow> binderTarget \<Rightarrow> binderState \<Rightarrow> binderState" where
  "applyPendingEvents E target s =
     drainPending E target (pendingEventsInfo s target)
       (s\<lparr>pendingEventsInfo := (pendingEventsInfo s)(target := [])\<rparr>)"

subsection \<open>Notions the properties are stated with\<close>

text \<open>The target a relay forwards to: the captured one; video-dom for the tracker.\<close>

fun relayTarget :: "relay \<Rightarrow> binderTarget" where
  "relayTarget (Relay _ (Forward m target name i)) = target"
| "relayTarget (Relay _ (MouseMove name)) = VideoDom"

text \<open>
  The physical source of a target kind holds these listeners: the media engine for
  kernel (none without an engine), the node of \<open>getTargetDom\<close> for the others.
\<close>

definition sourceListeners :: "binderState \<Rightarrow> binderTarget \<Rightarrow> listener list" where
  "sourceListeners s target =
     (if target = Kernel then (case kernel s of None \<Rightarrow> [] | Some ls \<Rightarrow> ls)
      else nodeListeners s (getTargetDom s target))"

text \<open>The native listeners of a target kind and name, on the source of that kind.\<close>

definition nativeListeners :: "binderState \<Rightarrow> binderTarget \<Rightarrow> string \<Rightarrow> listener list" where
  "nativeListeners s target name =
     filter (\<lambda>(key, fn, passive). key = name \<and> relayTarget fn = target) (sourceListeners s target)"

text \<open>Whether a listener list holds the relay under the name.\<close>

definition attached :: "string \<Rightarrow> relay \<Rightarrow> listener list \<Rightarrow> bool" where
  "attached key fn ls = ((key, fn) \<in> set (map (\<lambda>(k, f, p). (k, f)) ls))"

text \<open>
  The bookkeeping of a target kind is well formed when the two tables are in lockstep,
  no name is recorded twice, and every recorded name is one the binder handles.
\<close>

definition wellFormedAt :: "env \<Rightarrow> binderState \<Rightarrow> binderTarget \<Rightarrow> bool" where
  "wellFormedAt E s target =
     (map fst (bindedEventInfo s target) = bindedEventNames s target \<and>
      distinct (bindedEventNames s target) \<and>
      list_all (isEventNeedToBeHandled E target) (bindedEventNames s target))"

definition wellFormed :: "env \<Rightarrow> binderState \<Rightarrow> bool" where
  "wellFormed E s = list_all (wellFormedAt E s) kinds"

text \<open>
  The engine and the kernel bookkeeping are in step when the engine holds one kernel
  relay under every recorded name and none under any other name.
\<close>

definition kernelInStep :: "binderState \<Rightarrow> bool" where
  "kernelInStep s =
     (\<forall>m. length (nativeListeners s Kernel m) =
            (if m \<in> set (bindedEventNames s Kernel) then 1 else 0))"

text \<open>
  A descriptor is canonical when its name has no legacy prefix and no stage prefix left,
  and the bare name error has the target kernel.
\<close>

definition isCanonical :: "eventInfo \<Rightarrow> bool" where
  "isCanonical r =
     (\<not> targetKeyReg (ev_name r) \<and> secondaryReg (ev_name r) = None \<and>
      (ev_name r \<noteq> ''error'' \<or> ev_target r = Kernel))"

text \<open>Resolving a resolved descriptor again.\<close>

definition resolveAgain :: "env \<Rightarrow> eventInfo \<Rightarrow> eventInfo \<times> logEntry list" where
  "resolveAgain E r = getEventInfo E (ev_name r) (Some (ev_target r)) (Some (ev_stage r))"

text \<open>The resolved descriptor of a subscription request, with what resolving logs.\<close>

definition resolve :: "env \<Rightarrow> rawEventInfo \<Rightarrow> eventInfo \<times> logEntry list" where
  "resolve E info = getEventInfo E (raw_name info) (raw_target info) (raw_stage info)"

subsection \<open>A sample player\<close>

text \<open>
  Tables, a DOM and requests to run the model on. The sample names carry no stage
  prefix, so \<open>camelize\<close> is never applied to them.
\<close>

definition sampleEnv :: env where
  "sampleEnv =
     \<lparr>videoEvents = [''play'', ''pause''],
      domEvents = [''click'', ''mouseenter'', ''mouseleave''],
      kernelEvents = [''heartbeat''],
      passiveEvents = [''wheel''],
      esFullscreenEvents = [''fullscreenchange''],
      mustListenVideoDomEvents = [''mouseenter'', ''mouseleave''],
      camelize = (\<lambda>s. s),
      production = False\<rparr>"

text \<open>Container 1, wrapper 2, video element 3, one extended node 4; node 9 is outside.\<close>

definition sampleDom :: domState where
  "sampleDom =
     \<lparr>container = 1, wrapper = 2, videoElement = 3, videoExtendedNodes = [4],
      mouseInVideo = False,
      isNodeInsideVideo = (\<lambda>n. n = Some 3 \<or> n = Some 4)\<rparr>"

definition samplePlayer :: binderState where
  "samplePlayer = newBinder (Some []) sampleDom (\<lambda>_. [])"

definition sampleNoEngine :: binderState where
  "sampleNoEngine = newBinder None sampleDom (\<lambda>_. [])"

definition request :: "string \<Rightarrow> binderTarget option \<Rightarrow> string \<Rightarrow> jsval \<Rightarrow> rawEventInfo" where
  "request name target i fn =
     \<lparr>raw_name = name, raw_target = target, raw_stage = None, raw_id = i, raw_fn = fn\<rparr>"

definition emission :: "jsval \<Rightarrow> jsval \<Rightarrow> emitEventInfo" where
  "emission name i = \<lparr>emit_name = name, emit_id = i, emit_target = None, emit_stage = None\<rparr>"

definition mouse :: "string \<Rightarrow> node \<Rightarrow> node option \<Rightarrow> domEvent" where
  "mouse t cur rel = \<lparr>toElement = None, currentTarget = cur, relatedTarget = rel, evtype = t\<rparr>"

text \<open>
  The sample player after \<^verbatim>\<open>listenOnMouseMoveEvent(videoElement)\<close> and
  \<^verbatim>\<open>bindEventOnPenetrateNode(node 4)\<close>: the tracker listens on the video
  element and on the extended node.
\<close>

definition trackedPlayer :: binderState where
  "trackedPlayer =
     bindEventOnPenetrateNode sampleEnv 4 False (listenOnMouseMoveEvent sampleEnv 3 samplePlayer)"

text \<open>What the tracker does with a native event of the name it listens to.\<close>

definition track :: "env \<Rightarrow> domEvent \<Rightarrow> binderState \<Rightarrow> binderState" where
  "track E e s = snd (mouseMoveFn E (evtype e) [EventObj e] s)"

text \<open>The element the pointer goes to: \<^verbatim>\<open>toElement || relatedTarget\<close>.\<close>

definition destination :: "domEvent \<Rightarrow> node option" where
  "destination e = (case toElement e of Some n \<Rightarrow> Some n | None \<Rightarrow> relatedTarget e)"

text \<open>
  Three kernel subscriptions made before the engine exists; two of them are for the same
  name.
\<close>

definition queued :: binderState where
  "queued =
     snd (on sampleEnv (request ''heartbeat'' None ''c'' (JFun 3))
       (snd (on sampleEnv (request ''error'' None ''b'' (JFun 2))
         (snd (on sampleEnv (request ''heartbeat'' None ''a'' (JFun 1)) sampleNoEngine)))))"

text \<open>Two names with a relay on the container: click, then wheel.\<close>

definition clickedAndWheeled :: binderState where
  "clickedAndWheeled =
     snd (on sampleEnv (request ''wheel'' (Some Container) ''b'' (JFun 2))
       (snd (on sampleEnv (request ''click'' (Some Container) ''a'' (JFun 1)) samplePlayer)))"

section \<open>Properties\<close>

subsection \<open>Subscriptions with a handler that is not callable\<close>

lemma prettify_not_function:
  "\<not> isFunction (raw_fn info) \<Longrightarrow>
   prettifyEventParameter E info =
     (Inl (functionError (ev_name (fst (resolve E info))) (raw_fn info)), snd (resolve E info))"
  by (simp add: prettifyEventParameter_def resolve_def split: prod.splits)

lemma prettify_function:
  "isFunction (raw_fn info) \<Longrightarrow>
   prettifyEventParameter E info =
     (Inr \<lparr>ev_name = ev_name (fst (resolve E info)), ev_stage = ev_stage (fst (resolve E info)),
           ev_target = ev_target (fst (resolve E info)), ev_id = raw_id info, ev_fn = raw_fn info\<rparr>,
      snd (resolve E info))"
  by (simp add: prettifyEventParameter_def resolve_def split: prod.splits)

lemmas resolver_defs = getEventInfo_def getEventTargetByOldLogic_def targetKeyReg_def
  getEventStage_def secondaryReg_def getEventTargetByEventName_def

text \<open>
  C9. When the handler of a request is not callable, \<open>on\<close>, \<open>off\<close> and \<open>once\<close>
  throw an error whose message names the resolved event, and the state is the one
  before the call, but for what resolving the descriptor has logged: the buses, the
  relay bookkeeping, the pending queues and the native sources are untouched.
\<close>

theorem not_callable_throws:
  assumes "\<not> isFunction (raw_fn info)"
  shows "on E info s =
           (Inl (Error (''You must provide a function to handle with event '' @
                        ev_name (fst (resolve E info)) @ '', but not '' @ typeof (raw_fn info))),
            s\<lparr>logged := logged s @ snd (resolve E info)\<rparr>)
       \<and> off E info s =
           (Inl (Error (''You must provide a function to handle with event '' @
                        ev_name (fst (resolve E info)) @ '', but not '' @ typeof (raw_fn info))),
            s\<lparr>logged := logged s @ snd (resolve E info)\<rparr>)
       \<and> once E info s =
           (Inl (Error (''You must provide a function to handle with event '' @
                        ev_name (fst (resolve E info)) @ '', but not '' @ typeof (raw_fn info))),
            s\<lparr>logged := logged s @ snd (resolve E info)\<rparr>)"
  using assms
  by (simp add: on_def off_def once_def before_def prettify_not_function functionError_def addLog_def)

theorem not_callable_throws_witness:
  "on sampleEnv (request ''c_click'' None ''a'' (JNum 7)) samplePlayer =
     (Inl (Error ''You must provide a function to handle with event click, but not number''),
      samplePlayer\<lparr>logged := [LogWarn (oldNameWarning ''c_click'' ''click'' Container)]\<rparr>)
   \<and> off sampleEnv (request ''play'' None ''a'' JUndefined) samplePlayer =
     (Inl (Error ''You must provide a function to handle with event play, but not undefined''),
      samplePlayer)
   \<and> once sampleEnv (request ''play'' None ''a'' (JStr ''f'')) samplePlayer =
     (Inl (Error ''You must provide a function to handle with event play, but not string''),
      samplePlayer)"
  using not_callable_throws [of "request ''c_click'' None ''a'' (JNum 7)" sampleEnv samplePlayer]
    not_callable_throws [of "request ''play'' None ''a'' JUndefined" sampleEnv samplePlayer]
    not_callable_throws [of "request ''play'' None ''a'' (JStr ''f'')" sampleEnv samplePlayer]
  by (simp add: request_def resolve_def resolver_defs sampleEnv_def Let_def samplePlayer_def newBinder_def)

subsection \<open>Emissions the guard rejects\<close>

lemma guard_rejects:
  assumes "\<not> truthy (emit_name info) \<or> \<not> isString (emit_name info) \<or>
           (\<exists>n. emit_name info = JStr n \<and> secondaryReg n \<noteq> None) \<or>
           \<not> truthy (emit_id info) \<or> \<not> isString (emit_id info)"
  shows "isEventEmitalbe info = (False, [LogError illegalNameMessage]) \<or>
         isEventEmitalbe info = (False, [LogError illegalIdMessage])"
  using assms by (auto simp: isEventEmitalbe_def split: jsval.splits)

text \<open>
  C5. When the name of an emission is absent (or otherwise falsy), is not a string or
  begins with a stage prefix, or its id is absent (or otherwise falsy) or not a string,
  each of \<open>emit\<close>, \<open>emitSync\<close>, \<open>trigger\<close> and \<open>triggerSync\<close> returns without
  throwing, with \<^verbatim>\<open>undefined\<close> (\<open>emit\<close>, \<open>trigger\<close>) or \<^verbatim>\<open>false\<close>
  (\<open>emitSync\<close>, \<open>triggerSync\<close>), and changes nothing but the log, which gains one
  error: no bus has dispatched anything.
\<close>

theorem illegal_emission_is_rejected:
  assumes "\<not> truthy (emit_name info) \<or> \<not> isString (emit_name info) \<or>
           (\<exists>n. emit_name info = JStr n \<and> secondaryReg n \<noteq> None) \<or>
           \<not> truthy (emit_id info) \<or> \<not> isString (emit_id info)"
  shows "\<exists>m. (m = illegalNameMessage \<or> m = illegalIdMessage) \<and>
           emit E info args s = (Inr Undefined, s\<lparr>logged := logged s @ [LogError m]\<rparr>) \<and>
           emitSync E info args s = (Inr BoolFalse, s\<lparr>logged := logged s @ [LogError m]\<rparr>) \<and>
           trigger E info args s = (Inr Undefined, s\<lparr>logged := logged s @ [LogError m]\<rparr>) \<and>
           triggerSync E info args s = (Inr BoolFalse, s\<lparr>logged := logged s @ [LogError m]\<rparr>)"
  using guard_rejects [OF assms]
  by (auto simp: emit_def emitSync_def trigger_def triggerSync_def runnable_def addLog_def)

theorem illegal_emission_is_rejected_witness:
  "emit sampleEnv (emission (JStr ''play'') (JStr [])) [] samplePlayer =
     (Inr Undefined, samplePlayer\<lparr>logged := [LogError illegalIdMessage]\<rparr>)
   \<and> emitSync sampleEnv (emission JUndefined (JStr ''a'')) [] samplePlayer =
     (Inr BoolFalse, samplePlayer\<lparr>logged := [LogError illegalNameMessage]\<rparr>)
   \<and> buses (snd (triggerSync sampleEnv (emission (JStr ''beforePlay'') (JStr ''a'')) [] samplePlayer))
       = buses samplePlayer"
  using illegal_emission_is_rejected [of "emission (JStr ''play'') (JStr [])" sampleEnv "[]" samplePlayer]
    illegal_emission_is_rejected [of "emission JUndefined (JStr ''a'')" sampleEnv "[]" samplePlayer]
    illegal_emission_is_rejected [of "emission (JStr ''beforePlay'') (JStr ''a'')" sampleEnv "[]" samplePlayer]
  by (auto simp: emission_def emit_def runnable_def isEventEmitalbe_def addLog_def
      samplePlayer_def newBinder_def illegalIdMessage_def illegalNameMessage_def secondaryReg_def)

text \<open>A legal emission reaches the bus of its target, under the name as given.\<close>

lemma legal_emission_example:
  "emit sampleEnv (emission (JStr ''play'') (JStr ''a'')) [] samplePlayer =
     (Inr FromBus,
      samplePlayer\<lparr>buses := (buses samplePlayer)
        (Video := \<lparr>events = [], dispatched = [(Emit, ''play'', [])]\<rparr>)\<rparr>)"
  by (simp add: emission_def emit_def runnable_def before_def isEventEmitalbe_def addLog_def
      checkEventEmitParameter_def samplePlayer_def newBinder_def resolver_defs sampleEnv_def
      Let_def busCall_def bus_dispatch_def)

subsection \<open>The resolver\<close>

lemma targetKeyReg_w: "targetKeyReg (CHR ''w'' # CHR ''_'' # rest)"
  by (simp add: targetKeyReg_def)

lemma targetKeyReg_c: "targetKeyReg (CHR ''c'' # CHR ''_'' # rest)"
  by (simp add: targetKeyReg_def)

lemma getEventInfo_w:
  "getEventInfo E (CHR ''w'' # CHR ''_'' # rest) target stage =
     (\<lparr>ev_name = fst (getEventStage E rest),
       ev_stage = (case stage of Some st \<Rightarrow> st | None \<Rightarrow> snd (getEventStage E rest)),
       ev_target = Wrapper\<rparr>,
      if production E then [] else [LogWarn (oldNameWarning (''w_'' @ rest) rest Wrapper)])"
  by (simp add: getEventInfo_def getEventTargetByOldLogic_def targetKeyReg_w Let_def
      split: prod.splits option.splits)

lemma getEventInfo_c:
  "getEventInfo E (CHR ''c'' # CHR ''_'' # rest) target stage =
     (\<lparr>ev_name = fst (getEventStage E rest),
       ev_stage = (case stage of Some st \<Rightarrow> st | None \<Rightarrow> snd (getEventStage E rest)),
       ev_target = Container\<rparr>,
      if production E then [] else [LogWarn (oldNameWarning (''c_'' @ rest) rest Container)])"
  by (simp add: getEventInfo_def getEventTargetByOldLogic_def targetKeyReg_c Let_def
      split: prod.splits option.splits)

lemma getEventInfo_error:
  "getEventInfo E ''error'' target stage =
     (\<lparr>ev_name = ''error'', ev_stage = (case stage of Some st \<Rightarrow> st | None \<Rightarrow> StageMain),
       ev_target = Kernel\<rparr>, [])"
  by (simp add: resolver_defs Let_def)

lemma getEventStage_plain: "secondaryReg name = None \<Longrightarrow> getEventStage E name = (name, StageMain)"
  by (simp add: getEventStage_def)

text \<open>
  C6, as amended. Resolving a canonical descriptor (no legacy prefix and no stage prefix
  left in its name, and the target kernel when the name is error) returns it unchanged
  and logs nothing. The resolver strips one legacy prefix and one stage prefix, once, so
  what it returns need not be canonical.
\<close>

theorem canonical_descriptor_is_fixed:
  "isCanonical r \<Longrightarrow> resolveAgain E r = (r, [])"
  by (cases r) (auto simp: isCanonical_def resolveAgain_def getEventInfo_def getEventTargetByOldLogic_def getEventStage_def Let_def)

text \<open>The descriptor resolved from c_click is canonical, and resolving it again changes nothing.\<close>

theorem canonical_descriptor_is_fixed_witness:
  "isCanonical (fst (getEventInfo sampleEnv ''c_click'' None None)) \<and>
   resolveAgain sampleEnv (fst (getEventInfo sampleEnv ''c_click'' None None)) =
     (\<lparr>ev_name = ''click'', ev_stage = StageMain, ev_target = Container\<rparr>, [])"
  using canonical_descriptor_is_fixed [of "fst (getEventInfo sampleEnv ''c_click'' None None)" sampleEnv]
  by (simp add: isCanonical_def resolver_defs Let_def sampleEnv_def)

text \<open>
  The resolver is not idempotent on every input: w_error resolves to the name error with
  the target wrapper, and resolving that descriptor again moves it to the target kernel.
\<close>

theorem resolver_not_idempotent:
  "resolveAgain sampleEnv (fst (getEventInfo sampleEnv ''w_error'' None None)) \<noteq>
     (fst (getEventInfo sampleEnv ''w_error'' None None), [])"
  by (simp add: resolveAgain_def resolver_defs Let_def sampleEnv_def)

text \<open>
  C10, as amended. Resolving the name c_click yields the name click, the target
  container and the stage main. A name with the prefix c_ has the target container, a
  name with the prefix w_ the target wrapper, whatever target the caller gave, and the
  name is resolved from what follows the prefix (it is what follows the prefix when that
  has no stage prefix). Each such call logs one deprecation warning, unless
  \<^verbatim>\<open>NODE_ENV\<close> is production, where it logs none. Resolving the name error
  yields the target kernel and leaves the name.
\<close>

theorem legacy_translation:
  "fst (getEventInfo E ''c_click'' None None) =
      \<lparr>ev_name = ''click'', ev_stage = StageMain, ev_target = Container\<rparr>
   \<and> ev_target (fst (getEventInfo E (''c_'' @ rest) target stage)) = Container
   \<and> ev_target (fst (getEventInfo E (''w_'' @ rest) target stage)) = Wrapper
   \<and> ev_name (fst (getEventInfo E (''w_'' @ rest) target stage)) = fst (getEventStage E rest)
   \<and> (secondaryReg rest = None \<longrightarrow>
        fst (getEventInfo E (''w_'' @ rest) None None) =
          \<lparr>ev_name = rest, ev_stage = StageMain, ev_target = Wrapper\<rparr>)
   \<and> snd (getEventInfo E (''c_'' @ rest) target stage) =
        (if production E then [] else [LogWarn (oldNameWarning (''c_'' @ rest) rest Container)])
   \<and> snd (getEventInfo E (''w_'' @ rest) target stage) =
        (if production E then [] else [LogWarn (oldNameWarning (''w_'' @ rest) rest Wrapper)])
   \<and> ev_name (fst (getEventInfo E ''error'' target stage)) = ''error''
   \<and> ev_target (fst (getEventInfo E ''error'' target stage)) = Kernel"
  by (simp add: getEventInfo_c getEventInfo_w getEventInfo_error getEventStage_plain
      getEventStage_def secondaryReg_def)

text \<open>On the sample tables: w_click, and the warning of c_click in and out of production.\<close>

theorem legacy_translation_witness:
  "fst (getEventInfo sampleEnv ''w_click'' None None) =
          \<lparr>ev_name = ''click'', ev_stage = StageMain, ev_target = Wrapper\<rparr>
   \<and> snd (getEventInfo sampleEnv ''c_click'' None None) =
        [LogWarn (oldNameWarning ''c_click'' ''click'' Container)]
   \<and> snd (getEventInfo (sampleEnv\<lparr>production := True\<rparr>) ''c_click'' None None) = []"
  using legacy_translation [of sampleEnv "''click''" None None]
    legacy_translation [of "sampleEnv\<lparr>production := True\<rparr>" "''click''" None None]
  by (simp add: secondaryReg_def sampleEnv_def)

text \<open>In a production build resolving c_click logs no warning at all.\<close>

theorem no_warning_in_production:
  "length (snd (getEventInfo (sampleEnv\<lparr>production := True\<rparr>) ''c_click'' None None)) \<noteq> 1"
  by (simp add: resolver_defs Let_def sampleEnv_def)

subsection \<open>Lists, listeners and the loops over nodes\<close>

lemma indexOf_None_iff: "indexOf xs x = None \<longleftrightarrow> x \<notin> set xs"
  by (induction xs) auto

lemma indexOf_Some: "indexOf xs x = Some i \<Longrightarrow> i < length xs \<and> xs ! i = x"
  by (induction xs arbitrary: i) (auto split: if_splits)

lemma findBinded_indexOf:
  "findBinded xs name = map_option (\<lambda>i. (i, snd (xs ! i))) (indexOf (map fst xs) name)"
proof (induction xs)
  case Nil
  show ?case by simp
next
  case (Cons a xs)
  obtain n f where a: "a = (n, f)" by (cases a)
  show ?case using Cons by (simp add: a option.map_comp comp_def)
qed

lemma splice1_distinct: "distinct xs \<Longrightarrow> i < length xs \<Longrightarrow> xs ! i \<notin> set (splice1 i xs)"
proof -
  assume d: "distinct xs" and i: "i < length xs"
  have "xs = take i xs @ xs ! i # drop (Suc i) xs" using i by (rule id_take_nth_drop)
  then have "distinct (take i xs @ xs ! i # drop (Suc i) xs)" using d by simp
  then show ?thesis by (auto simp: splice1_def)
qed

lemma set_splice1: "set (splice1 i xs) \<subseteq> set xs"
  by (auto simp: splice1_def dest: in_set_takeD in_set_dropD)

lemma distinct_splice1: "distinct xs \<Longrightarrow> distinct (splice1 i xs)"
proof -
  assume d: "distinct xs"
  have "distinct (take i xs @ drop i xs)" using d by simp
  then have disj: "set (take i xs) \<inter> set (drop i xs) = {}" by (simp only: distinct_append)
  have sub: "set (drop (Suc i) xs) \<subseteq> set (drop i xs)"
    by (rule set_drop_subset_set_drop) simp
  have "set (take i xs) \<inter> set (drop (Suc i) xs) = {}" using disj sub by blast
  then show ?thesis using d by (simp add: splice1_def)
qed

lemma map_splice1: "map f (splice1 i xs) = splice1 i (map f xs)"
  by (simp add: splice1_def take_map drop_map)

lemma attach_idem: "attach k f p (attach k f p' ls) = attach k f p' ls"
  by (auto simp: attach_def)

lemma attached_attach: "attached k f (attach k f p ls)"
  by (auto simp: attach_def attached_def)

lemma not_attached_detach: "\<not> attached k f (detach k f ls)"
  by (auto simp: detach_def attached_def)

lemma detach_idem: "detach k f (detach k f ls) = detach k f ls"
  by (simp add: detach_def)

lemma splice1_filter:
  assumes d: "distinct (map g xs)" and i: "i < length xs"
  shows "splice1 i xs = filter (\<lambda>x. g x \<noteq> g (xs ! i)) xs"
proof -
  have xs: "xs = take i xs @ xs ! i # drop (Suc i) xs" using i by (rule id_take_nth_drop)
  have "distinct (map g (take i xs @ xs ! i # drop (Suc i) xs))" using d xs by simp
  then have a0: "g (xs ! i) \<notin> g ` set (take i xs)" and b0: "g (xs ! i) \<notin> g ` set (drop (Suc i) xs)"
    by auto
  have a: "\<forall>x \<in> set (take i xs). g x \<noteq> g (xs ! i)" using a0 by (metis imageI)
  have b: "\<forall>x \<in> set (drop (Suc i) xs). g x \<noteq> g (xs ! i)" using b0 by (metis imageI)
  have fa: "filter (\<lambda>x. g x \<noteq> g (xs ! i)) (take i xs) = take i xs"
    using a by (simp add: filter_id_conv)
  have fb: "filter (\<lambda>x. g x \<noteq> g (xs ! i)) (drop (Suc i) xs) = drop (Suc i) xs"
    using b by (simp add: filter_id_conv)
  have "filter (\<lambda>x. g x \<noteq> g (xs ! i)) xs =
        filter (\<lambda>x. g x \<noteq> g (xs ! i)) (take i xs @ xs ! i # drop (Suc i) xs)"
    using xs by simp
  also have "\<dots> = take i xs @ drop (Suc i) xs"
    by (simp only: filter_append filter.simps fa fb) simp
  finally show ?thesis by (simp add: splice1_def)
qed

lemma filter_detach_other:
  "m \<noteq> n \<Longrightarrow>
   filter (\<lambda>x. fst x = m \<and> P x) (detach n fn ls) = filter (\<lambda>x. fst x = m \<and> P x) ls"
  by (induction ls) (auto simp: detach_def)

lemma addEventOnDom_eq:
  "addEventOnDom E x k f s =
     s\<lparr>nodeListeners := (nodeListeners s)(x := attach k f (k \<in> set (passiveEvents E)) (nodeListeners s x))\<rparr>"
  by (simp add: addEventOnDom_def addEvent_def)

lemma fold_addEventOnDom:
  "fold (\<lambda>node. addEventOnDom E node k f) nodes s =
     s\<lparr>nodeListeners := (\<lambda>x. if x \<in> set nodes
                               then attach k f (k \<in> set (passiveEvents E)) (nodeListeners s x)
                               else nodeListeners s x)\<rparr>"
proof (induction nodes arbitrary: s)
  case Nil
  show ?case by simp
next
  case (Cons a nodes)
  have "fold (\<lambda>node. addEventOnDom E node k f) (a # nodes) s =
        fold (\<lambda>node. addEventOnDom E node k f) nodes (addEventOnDom E a k f s)"
    by simp
  also have "\<dots> = (addEventOnDom E a k f s)\<lparr>nodeListeners :=
       (\<lambda>x. if x \<in> set nodes
            then attach k f (k \<in> set (passiveEvents E)) (nodeListeners (addEventOnDom E a k f s) x)
            else nodeListeners (addEventOnDom E a k f s) x)\<rparr>"
    by (rule Cons)
  also have "\<dots> = s\<lparr>nodeListeners := (\<lambda>x. if x \<in> set (a # nodes)
                               then attach k f (k \<in> set (passiveEvents E)) (nodeListeners s x)
                               else nodeListeners s x)\<rparr>"
    by (simp add: addEventOnDom_eq fun_eq_iff attach_idem)
  finally show ?case .
qed

lemma fold_removeEvent:
  "fold (\<lambda>node. removeEvent node k f) nodes s =
     s\<lparr>nodeListeners := (\<lambda>x. if x \<in> set nodes then detach k f (nodeListeners s x)
                               else nodeListeners s x)\<rparr>"
proof (induction nodes arbitrary: s)
  case Nil
  show ?case by simp
next
  case (Cons a nodes)
  have "fold (\<lambda>node. removeEvent node k f) (a # nodes) s =
        fold (\<lambda>node. removeEvent node k f) nodes (removeEvent a k f s)"
    by simp
  also have "\<dots> = (removeEvent a k f s)\<lparr>nodeListeners :=
       (\<lambda>x. if x \<in> set nodes then detach k f (nodeListeners (removeEvent a k f s) x)
            else nodeListeners (removeEvent a k f s) x)\<rparr>"
    by (rule Cons)
  also have "\<dots> = s\<lparr>nodeListeners := (\<lambda>x. if x \<in> set (a # nodes)
                               then detach k f (nodeListeners s x)
                               else nodeListeners s x)\<rparr>"
    by (simp add: removeEvent_def fun_eq_iff detach_idem)
  finally show ?case .
qed

lemma add_skips:
  "\<not> isEventNeedToBeHandled E t n \<or> n \<in> set (bindedEventNames s t) \<Longrightarrow>
   addEventListenerOnTarget E n t i s = s"
  by (auto simp: addEventListenerOnTarget_def)

lemma add_pends:
  "n \<notin> set (bindedEventNames s Kernel) \<Longrightarrow> kernel s = None \<Longrightarrow>
   addEventListenerOnTarget E n Kernel i s = addPendingEvent Kernel n i s"
  by (simp add: addEventListenerOnTarget_def isEventNeedToBeHandled_def)

lemma add_attaches:
  assumes "isEventNeedToBeHandled E t n" and "n \<notin> set (bindedEventNames s t)"
    and "t = Kernel \<longrightarrow> kernel s \<noteq> None"
  shows "\<exists>fn. relayTarget fn = t \<and>
           addEventListenerOnTarget E n t i s =
             s\<lparr>allocated := Suc (allocated s),
               kernel := (if t = Kernel then map_option (attach n fn False) (kernel s) else kernel s),
               nodeListeners :=
                 (\<lambda>x. if t \<noteq> Kernel \<and> (x = getTargetDom s t \<or>
                            (t = VideoDom \<and> x \<in> set (videoExtendedNodes (dom_d s))))
                       then attach n fn (n \<in> set (passiveEvents E)) (nodeListeners s x)
                       else nodeListeners s x),
               bindedEventNames := (bindedEventNames s)(t := bindedEventNames s t @ [n]),
               bindedEventInfo := (bindedEventInfo s)(t := bindedEventInfo s t @ [(n, fn)])\<rparr>"
proof (cases t)
  case Kernel
  then obtain ls where ls: "kernel s = Some ls" using assms(3) by auto
  show ?thesis
    apply (rule exI [of _ "Relay (allocated s) (Forward TriggerSync t n ''kernel'')"])
    using assms(1,2) Kernel ls
    by (simp add: addEventListenerOnTarget_def newRelay_def pushBinded_def)
next
  case Container
  show ?thesis
    apply (rule exI [of _ "Relay (allocated s) (Forward TriggerSync t n (targetString t))"])
    using assms(1,2) Container
    by (simp add: addEventListenerOnTarget_def newRelay_def pushBinded_def addEventOnDom_eq
        getTargetDom_def fun_eq_iff Let_def)
next
  case Wrapper
  show ?thesis
    apply (rule exI [of _ "Relay (allocated s) (Forward TriggerSync t n (targetString t))"])
    using assms(1,2) Wrapper
    by (simp add: addEventListenerOnTarget_def newRelay_def pushBinded_def addEventOnDom_eq
        getTargetDom_def fun_eq_iff Let_def)
next
  case Video
  show ?thesis
    apply (rule exI [of _ "Relay (allocated s) (Forward Trigger t n (targetString t))"])
    using assms(1,2) Video
    by (simp add: addEventListenerOnTarget_def newRelay_def pushBinded_def addEventOnDom_eq
        getTargetDom_def fun_eq_iff Let_def)
next
  case VideoDom
  show ?thesis
    apply (rule exI [of _ "Relay (allocated s) (Forward TriggerSync t n (targetString t))"])
    using assms(1,2) VideoDom
    by (simp add: addEventListenerOnTarget_def newRelay_def pushBinded_def addEventOnDom_eq
        fold_addEventOnDom getTargetDom_def fun_eq_iff attach_idem Let_def)
next
  case Plugin
  then show ?thesis using assms(1) by (simp add: isEventNeedToBeHandled_def)
next
  case EsFullscreen
  then show ?thesis using assms(1) by (simp add: isEventNeedToBeHandled_def)
qed

subsection \<open>What a subscription does to the relays\<close>

lemma getTargetDom_cong: "dom_d s' = dom_d s \<Longrightarrow> getTargetDom s' t = getTargetDom s t"
  by (simp add: getTargetDom_def split: binderTarget.splits)

lemma getTargetDom_logged: "getTargetDom (s\<lparr>logged := x\<rparr>) t = getTargetDom s t"
  by (simp add: getTargetDom_def split: binderTarget.splits)

lemma on_function:
  assumes "isFunction (raw_fn info)"
  shows "on E info s =
     (Inr FromBus,
      (addEventListenerOnTarget E (ev_name (fst (resolve E info))) (ev_target (fst (resolve E info)))
         (raw_id info) (addLog (snd (resolve E info)) s))
      \<lparr>buses := (buses (addEventListenerOnTarget E (ev_name (fst (resolve E info)))
                   (ev_target (fst (resolve E info))) (raw_id info) (addLog (snd (resolve E info)) s)))
         (ev_target (fst (resolve E info)) :=
            bus_on (raw_id info) (ev_name (fst (resolve E info))) (raw_fn info)
              (ev_stage (fst (resolve E info)))
              (buses (addEventListenerOnTarget E (ev_name (fst (resolve E info)))
                   (ev_target (fst (resolve E info))) (raw_id info) (addLog (snd (resolve E info)) s))
                 (ev_target (fst (resolve E info)))))\<rparr>)"
  using assms by (simp add: on_def before_def prettify_function Let_def)

lemma on_skipping:
  assumes "isFunction (raw_fn info)"
    and "\<not> isEventNeedToBeHandled E (ev_target (fst (resolve E info))) (ev_name (fst (resolve E info)))
         \<or> ev_name (fst (resolve E info)) \<in> set (bindedEventNames s (ev_target (fst (resolve E info))))"
  shows "on E info s =
     (Inr FromBus,
      s\<lparr>logged := logged s @ snd (resolve E info),
        buses := (buses s)(ev_target (fst (resolve E info)) :=
            bus_on (raw_id info) (ev_name (fst (resolve E info))) (raw_fn info)
              (ev_stage (fst (resolve E info))) (buses s (ev_target (fst (resolve E info)))))\<rparr>)"
proof -
  have "addEventListenerOnTarget E (ev_name (fst (resolve E info))) (ev_target (fst (resolve E info)))
         (raw_id info) (addLog (snd (resolve E info)) s) = addLog (snd (resolve E info)) s"
    using assms(2) by (intro add_skips) (simp add: addLog_def)
  then show ?thesis by (simp add: on_function [OF assms(1)] addLog_def)
qed

lemma on_pending:
  assumes "isFunction (raw_fn info)"
    and "ev_target (fst (resolve E info)) = Kernel"
    and "ev_name (fst (resolve E info)) \<notin> set (bindedEventNames s Kernel)"
    and "kernel s = None"
  shows "on E info s =
     (Inr FromBus,
      s\<lparr>logged := logged s @ snd (resolve E info),
        pendingEventsInfo := (pendingEventsInfo s)(Kernel :=
            pendingEventsInfo s Kernel @ [(ev_name (fst (resolve E info)), raw_id info)]),
        buses := (buses s)(Kernel :=
            bus_on (raw_id info) (ev_name (fst (resolve E info))) (raw_fn info)
              (ev_stage (fst (resolve E info))) (buses s Kernel))\<rparr>)"
proof -
  have "addEventListenerOnTarget E (ev_name (fst (resolve E info))) Kernel
         (raw_id info) (addLog (snd (resolve E info)) s) =
        addPendingEvent Kernel (ev_name (fst (resolve E info))) (raw_id info) (addLog (snd (resolve E info)) s)"
    using assms(3,4) by (intro add_pends) (simp_all add: addLog_def)
  then show ?thesis by (simp add: on_function [OF assms(1)] assms(2) addLog_def addPendingEvent_def)
qed

lemma on_attaching:
  assumes "isFunction (raw_fn info)"
    and "ev_target (fst (resolve E info)) = t" and "ev_name (fst (resolve E info)) = n"
    and "isEventNeedToBeHandled E t n" and "n \<notin> set (bindedEventNames s t)"
    and "t = Kernel \<longrightarrow> kernel s \<noteq> None"
  shows "\<exists>fn. relayTarget fn = t \<and> on E info s =
     (Inr FromBus,
      s\<lparr>logged := logged s @ snd (resolve E info),
        allocated := Suc (allocated s),
        kernel := (if t = Kernel then map_option (attach n fn False) (kernel s) else kernel s),
        nodeListeners :=
          (\<lambda>x. if t \<noteq> Kernel \<and> (x = getTargetDom s t \<or>
                     (t = VideoDom \<and> x \<in> set (videoExtendedNodes (dom_d s))))
                then attach n fn (n \<in> set (passiveEvents E)) (nodeListeners s x)
                else nodeListeners s x),
        bindedEventNames := (bindedEventNames s)(t := bindedEventNames s t @ [n]),
        bindedEventInfo := (bindedEventInfo s)(t := bindedEventInfo s t @ [(n, fn)]),
        buses := (buses s)(t :=
            bus_on (raw_id info) n (raw_fn info) (ev_stage (fst (resolve E info))) (buses s t))\<rparr>)"
proof -
  let ?s = "addLog (snd (resolve E info)) s"
  have h: "n \<notin> set (bindedEventNames ?s t)" "t = Kernel \<longrightarrow> kernel ?s \<noteq> None"
    using assms(5,6) by (simp_all add: addLog_def)
  from add_attaches [OF assms(4) h, of "raw_id info"]
  obtain fn where fn: "relayTarget fn = t" and
    eq: "addEventListenerOnTarget E n t (raw_id info) ?s =
           ?s\<lparr>allocated := Suc (allocated ?s),
               kernel := (if t = Kernel then map_option (attach n fn False) (kernel ?s) else kernel ?s),
               nodeListeners :=
                 (\<lambda>x. if t \<noteq> Kernel \<and> (x = getTargetDom ?s t \<or>
                            (t = VideoDom \<and> x \<in> set (videoExtendedNodes (dom_d ?s))))
                       then attach n fn (n \<in> set (passiveEvents E)) (nodeListeners ?s x)
                       else nodeListeners ?s x),
               bindedEventNames := (bindedEventNames ?s)(t := bindedEventNames ?s t @ [n]),
               bindedEventInfo := (bindedEventInfo ?s)(t := bindedEventInfo ?s t @ [(n, fn)])\<rparr>"
    by blast
  show ?thesis
    apply (rule exI [of _ fn])
    apply (simp only: on_function [OF assms(1)] assms(2,3) eq fn)
    apply (simp add: addLog_def getTargetDom_logged cong: if_cong)
    done
qed

lemma filter_attach_new:
  assumes "filter (\<lambda>(key, f, q). key = n \<and> relayTarget f = t) ls = []" and "relayTarget fn = t"
  shows "filter (\<lambda>(key, f, q). key = n \<and> relayTarget f = t) (attach n fn p ls) = [(n, fn, p)]"
proof -
  have none: "\<forall>x \<in> set ls. \<not> (case x of (key, f, q) \<Rightarrow> key = n \<and> relayTarget f = t)"
    using assms(1) by (simp add: filter_empty_conv)
  have "(n, fn) \<notin> set (map (\<lambda>(k, f, p). (k, f)) ls)"
  proof
    assume "(n, fn) \<in> set (map (\<lambda>(k, f, p). (k, f)) ls)"
    then obtain q where "(n, fn, q) \<in> set ls" by auto
    with none assms(2) show False by auto
  qed
  then show ?thesis using assms by (simp add: attach_def)
qed

lemma filter_attach_other:
  "m \<noteq> n \<Longrightarrow>
   filter (\<lambda>(key, f, q). key = m \<and> relayTarget f = t) (attach n fn p ls) =
   filter (\<lambda>(key, f, q). key = m \<and> relayTarget f = t) ls"
  by (simp add: attach_def)

lemma on_attaching_summary:
  assumes "isFunction (raw_fn info)"
    and "ev_target (fst (resolve E info)) = t" and "ev_name (fst (resolve E info)) = n"
    and "isEventNeedToBeHandled E t n" and "n \<notin> set (bindedEventNames s t)"
    and "t = Kernel \<longrightarrow> kernel s \<noteq> None"
  shows "\<exists>fn p s'. on E info s = (Inr FromBus, s') \<and> relayTarget fn = t \<and>
           sourceListeners s' t = attach n fn p (sourceListeners s t) \<and>
           bindedEventNames s' t = bindedEventNames s t @ [n] \<and>
           bindedEventInfo s' t = bindedEventInfo s t @ [(n, fn)] \<and>
           buses s' t = bus_on (raw_id info) n (raw_fn info) (ev_stage (fst (resolve E info))) (buses s t) \<and>
           dom_d s' = dom_d s \<and> pendingEventsInfo s' = pendingEventsInfo s \<and>
           (t = VideoDom \<longrightarrow>
              (\<forall>x \<in> set (videoExtendedNodes (dom_d s)). attached n fn (nodeListeners s' x)))"
proof -
  from on_attaching [OF assms] obtain fn s' where fn: "relayTarget fn = t"
    and on: "on E info s = (Inr FromBus, s')"
    and s': "s' = s\<lparr>logged := logged s @ snd (resolve E info),
        allocated := Suc (allocated s),
        kernel := (if t = Kernel then map_option (attach n fn False) (kernel s) else kernel s),
        nodeListeners :=
          (\<lambda>x. if t \<noteq> Kernel \<and> (x = getTargetDom s t \<or>
                     (t = VideoDom \<and> x \<in> set (videoExtendedNodes (dom_d s))))
                then attach n fn (n \<in> set (passiveEvents E)) (nodeListeners s x)
                else nodeListeners s x),
        bindedEventNames := (bindedEventNames s)(t := bindedEventNames s t @ [n]),
        bindedEventInfo := (bindedEventInfo s)(t := bindedEventInfo s t @ [(n, fn)]),
        buses := (buses s)(t :=
            bus_on (raw_id info) n (raw_fn info) (ev_stage (fst (resolve E info))) (buses s t))\<rparr>"
    by blast
  have dom: "dom_d s' = dom_d s" by (simp add: s')
  have src: "sourceListeners s' t =
      attach n fn (if t = Kernel then False else n \<in> set (passiveEvents E)) (sourceListeners s t)"
  proof (cases "t = Kernel")
    case True
    then obtain ls where "kernel s = Some ls" using assms(6) by auto
    then show ?thesis using True by (simp add: sourceListeners_def s')
  next
    case False
    then show ?thesis
      by (simp add: sourceListeners_def getTargetDom_cong [OF dom]) (simp add: s')
  qed
  have ext: "t = VideoDom \<longrightarrow>
              (\<forall>x \<in> set (videoExtendedNodes (dom_d s)). attached n fn (nodeListeners s' x))"
    by (simp add: s' attached_attach)
  show ?thesis
    apply (rule exI [of _ fn])
    apply (rule exI [of _ "if t = Kernel then False else n \<in> set (passiveEvents E)"])
    apply (rule exI [of _ s'])
    using on fn src dom ext by (simp add: s')
qed

lemma subscribersOf_bus_on:
  "subscribersOf (bus_on i n f st b) m =
     subscribersOf b m @
     (if n = m then [\<lparr>sub_id = i, sub_name = n, sub_fn = f, sub_stage = st, sub_once = False\<rparr>] else [])"
  by (simp add: subscribersOf_def bus_on_def)

lemma nativeListeners_cong:
  "kernel s' = kernel s \<Longrightarrow> nodeListeners s' = nodeListeners s \<Longrightarrow> dom_d s' = dom_d s \<Longrightarrow>
   nativeListeners s' t n = nativeListeners s t n"
  using getTargetDom_cong [of s' s t] by (simp add: nativeListeners_def sourceListeners_def)

text \<open>
  C2, as amended. Take a target kind and a name with no relay recorded, no native
  listener on the source and no subscriber on the bus, and two requests with callable
  handlers that resolve to them. After \<open>on\<close> of the first and \<open>on\<close> of the second,
  the bus of the target holds exactly the two subscribers, and the second call has
  attached nothing: the native sources and the bookkeeping are as the first call left
  them. The source holds exactly one native listener for the name when the binder
  handles the pair (the target is not plugin or esFullscreen, and not video with a
  name of the always-on list) and, for kernel, an engine is attached; that relay is the
  one recorded, and for video-dom it is on every extended node as well. Otherwise no
  native listener has been attached at all.
\<close>

theorem one_relay_two_subscribers:
  assumes f1: "isFunction (raw_fn info1)" and f2: "isFunction (raw_fn info2)"
    and t1: "ev_target (fst (resolve E info1)) = t" and n1: "ev_name (fst (resolve E info1)) = n"
    and t2: "ev_target (fst (resolve E info2)) = t" and n2: "ev_name (fst (resolve E info2)) = n"
    and unbound: "n \<notin> set (bindedEventNames s t)"
    and nolistener: "nativeListeners s t n = []"
    and nosub: "subscribersOf (buses s t) n = []"
    and s1: "s1 = snd (on E info1 s)" and s2: "s2 = snd (on E info2 s1)"
  shows "fst (on E info1 s) = Inr FromBus \<and> fst (on E info2 s1) = Inr FromBus \<and>
     subscribersOf (buses s2 t) n =
       [\<lparr>sub_id = raw_id info1, sub_name = n, sub_fn = raw_fn info1,
         sub_stage = ev_stage (fst (resolve E info1)), sub_once = False\<rparr>,
        \<lparr>sub_id = raw_id info2, sub_name = n, sub_fn = raw_fn info2,
         sub_stage = ev_stage (fst (resolve E info2)), sub_once = False\<rparr>] \<and>
     kernel s2 = kernel s1 \<and> nodeListeners s2 = nodeListeners s1 \<and>
     bindedEventInfo s2 = bindedEventInfo s1 \<and> bindedEventNames s2 = bindedEventNames s1 \<and>
     (if isEventNeedToBeHandled E t n \<and> (t = Kernel \<longrightarrow> kernel s \<noteq> None)
      then (\<exists>fn p. relayTarget fn = t \<and> nativeListeners s2 t n = [(n, fn, p)] \<and>
              bindedEventInfo s2 t = bindedEventInfo s t @ [(n, fn)] \<and>
              (t = VideoDom \<longrightarrow>
                 (\<forall>x \<in> set (videoExtendedNodes (dom_d s)). attached n fn (nodeListeners s2 x))))
      else nativeListeners s2 t n = [] \<and> kernel s2 = kernel s \<and>
           nodeListeners s2 = nodeListeners s \<and> bindedEventInfo s2 = bindedEventInfo s)"
proof -
  let ?sub1 = "\<lparr>sub_id = raw_id info1, sub_name = n, sub_fn = raw_fn info1,
         sub_stage = ev_stage (fst (resolve E info1)), sub_once = False\<rparr>"
  let ?sub2 = "\<lparr>sub_id = raw_id info2, sub_name = n, sub_fn = raw_fn info2,
         sub_stage = ev_stage (fst (resolve E info2)), sub_once = False\<rparr>"
  consider (attach) "isEventNeedToBeHandled E t n" "t = Kernel \<longrightarrow> kernel s \<noteq> None"
    | (skip) "\<not> isEventNeedToBeHandled E t n"
    | (pend) "isEventNeedToBeHandled E t n" "t = Kernel" "kernel s = None"
    by blast
  then show ?thesis
  proof cases
    case attach
    from on_attaching_summary [OF f1 t1 n1 attach(1) unbound attach(2)]
    obtain fn where "\<exists>p s'. on E info1 s = (Inr FromBus, s') \<and> relayTarget fn = t \<and>
           sourceListeners s' t = attach n fn p (sourceListeners s t) \<and>
           bindedEventNames s' t = bindedEventNames s t @ [n] \<and>
           bindedEventInfo s' t = bindedEventInfo s t @ [(n, fn)] \<and>
           buses s' t = bus_on (raw_id info1) n (raw_fn info1) (ev_stage (fst (resolve E info1))) (buses s t) \<and>
           dom_d s' = dom_d s \<and> pendingEventsInfo s' = pendingEventsInfo s \<and>
           (t = VideoDom \<longrightarrow>
              (\<forall>x \<in> set (videoExtendedNodes (dom_d s)). attached n fn (nodeListeners s' x)))"
      by (rule exE)
    then obtain p where "\<exists>s'. on E info1 s = (Inr FromBus, s') \<and> relayTarget fn = t \<and>
           sourceListeners s' t = attach n fn p (sourceListeners s t) \<and>
           bindedEventNames s' t = bindedEventNames s t @ [n] \<and>
           bindedEventInfo s' t = bindedEventInfo s t @ [(n, fn)] \<and>
           buses s' t = bus_on (raw_id info1) n (raw_fn info1) (ev_stage (fst (resolve E info1))) (buses s t) \<and>
           dom_d s' = dom_d s \<and> pendingEventsInfo s' = pendingEventsInfo s \<and>
           (t = VideoDom \<longrightarrow>
              (\<forall>x \<in> set (videoExtendedNodes (dom_d s)). attached n fn (nodeListeners s' x)))"
      by (rule exE)
    then obtain s' where all: "on E info1 s = (Inr FromBus, s') \<and> relayTarget fn = t \<and>
           sourceListeners s' t = attach n fn p (sourceListeners s t) \<and>
           bindedEventNames s' t = bindedEventNames s t @ [n] \<and>
           bindedEventInfo s' t = bindedEventInfo s t @ [(n, fn)] \<and>
           buses s' t = bus_on (raw_id info1) n (raw_fn info1) (ev_stage (fst (resolve E info1))) (buses s t) \<and>
           dom_d s' = dom_d s \<and> pendingEventsInfo s' = pendingEventsInfo s \<and>
           (t = VideoDom \<longrightarrow>
              (\<forall>x \<in> set (videoExtendedNodes (dom_d s)). attached n fn (nodeListeners s' x)))"
      by (rule exE)
    note on1 = all [THEN conjunct1]
    note fn = all [THEN conjunct2, THEN conjunct1]
    note src = all [THEN conjunct2, THEN conjunct2, THEN conjunct1]
    note names = all [THEN conjunct2, THEN conjunct2, THEN conjunct2, THEN conjunct1]
    note info = all [THEN conjunct2, THEN conjunct2, THEN conjunct2, THEN conjunct2, THEN conjunct1]
    note bus = all [THEN conjunct2, THEN conjunct2, THEN conjunct2, THEN conjunct2, THEN conjunct2,
      THEN conjunct1]
    note ext = all [THEN conjunct2, THEN conjunct2, THEN conjunct2, THEN conjunct2, THEN conjunct2,
      THEN conjunct2, THEN conjunct2, THEN conjunct2]
    have s1': "s1 = s'" using s1 on1 by simp
    have bound: "ev_name (fst (resolve E info2)) \<in> set (bindedEventNames s' (ev_target (fst (resolve E info2))))"
      using names by (simp add: t2 n2)
    have on2: "on E info2 s' =
        (Inr FromBus,
         s'\<lparr>logged := logged s' @ snd (resolve E info2),
            buses := (buses s')(t := bus_on (raw_id info2) n (raw_fn info2)
               (ev_stage (fst (resolve E info2))) (buses s' t))\<rparr>)"
      using on_skipping [OF f2 disjI2, OF bound] by (simp add: t2 n2)
    have s2': "s2 = s'\<lparr>logged := logged s' @ snd (resolve E info2),
            buses := (buses s')(t := bus_on (raw_id info2) n (raw_fn info2)
               (ev_stage (fst (resolve E info2))) (buses s' t))\<rparr>"
      using s2 s1' on2 by simp
    have nat1: "nativeListeners s' t n = [(n, fn, p)]"
      using filter_attach_new [of n t "sourceListeners s t" fn p] nolistener fn
      by (simp add: nativeListeners_def src)
    have "nativeListeners s2 t n = nativeListeners s' t n"
      by (rule nativeListeners_cong) (simp_all add: s2')
    then have nat2: "nativeListeners s2 t n = [(n, fn, p)]" using nat1 by simp
    have subs: "subscribersOf (buses s2 t) n = [?sub1, ?sub2]"
      by (simp add: s2' bus subscribersOf_bus_on nosub)
    have r1: "fst (on E info1 s) = Inr FromBus" by (simp add: on1)
    have r2: "fst (on E info2 s1) = Inr FromBus" by (simp add: on2 s1')
    have r3: "kernel s2 = kernel s1" "nodeListeners s2 = nodeListeners s1"
      "bindedEventInfo s2 = bindedEventInfo s1" "bindedEventNames s2 = bindedEventNames s1"
      by (simp_all add: s2' s1')
    have i2: "bindedEventInfo s2 t = bindedEventInfo s t @ [(n, fn)]" using info by (simp add: s2')
    have e2: "t = VideoDom \<longrightarrow>
              (\<forall>x \<in> set (videoExtendedNodes (dom_d s)). attached n fn (nodeListeners s2 x))"
      using ext by (simp add: s2')
    have ex: "\<exists>fn p. relayTarget fn = t \<and> nativeListeners s2 t n = [(n, fn, p)] \<and>
              bindedEventInfo s2 t = bindedEventInfo s t @ [(n, fn)] \<and>
              (t = VideoDom \<longrightarrow>
                 (\<forall>x \<in> set (videoExtendedNodes (dom_d s)). attached n fn (nodeListeners s2 x)))"
      using fn nat2 i2 e2 by blast
    have cond: "isEventNeedToBeHandled E t n \<and> (t = Kernel \<longrightarrow> kernel s \<noteq> None)"
      using attach by simp
    show ?thesis
      by (subst if_P [OF cond]) (intro conjI r1 r2 subs r3 ex)
  next
    case skip
    have sk1: "\<not> isEventNeedToBeHandled E (ev_target (fst (resolve E info1))) (ev_name (fst (resolve E info1)))"
      using skip by (simp add: t1 n1)
    have sk2: "\<not> isEventNeedToBeHandled E (ev_target (fst (resolve E info2))) (ev_name (fst (resolve E info2)))"
      using skip by (simp add: t2 n2)
    have on1: "on E info1 s =
        (Inr FromBus,
         s\<lparr>logged := logged s @ snd (resolve E info1),
            buses := (buses s)(t := bus_on (raw_id info1) n (raw_fn info1)
               (ev_stage (fst (resolve E info1))) (buses s t))\<rparr>)"
      using on_skipping [OF f1 disjI1, OF sk1] by (simp add: t1 n1)
    have on2: "on E info2 s1 =
        (Inr FromBus,
         s1\<lparr>logged := logged s1 @ snd (resolve E info2),
            buses := (buses s1)(t := bus_on (raw_id info2) n (raw_fn info2)
               (ev_stage (fst (resolve E info2))) (buses s1 t))\<rparr>)"
      using on_skipping [OF f2 disjI1, OF sk2] by (simp add: t2 n2)
    have s1': "s1 = s\<lparr>logged := logged s @ snd (resolve E info1),
            buses := (buses s)(t := bus_on (raw_id info1) n (raw_fn info1)
               (ev_stage (fst (resolve E info1))) (buses s t))\<rparr>"
      using s1 on1 by simp
    have s2': "s2 = s1\<lparr>logged := logged s1 @ snd (resolve E info2),
            buses := (buses s1)(t := bus_on (raw_id info2) n (raw_fn info2)
               (ev_stage (fst (resolve E info2))) (buses s1 t))\<rparr>"
      using s2 on2 by simp
    have "nativeListeners s2 t n = nativeListeners s t n"
      by (rule nativeListeners_cong) (simp_all add: s2' s1')
    then have nat2: "nativeListeners s2 t n = []" using nolistener by simp
    have subs: "subscribersOf (buses s2 t) n = [?sub1, ?sub2]"
      by (simp add: s2' s1' subscribersOf_bus_on nosub)
    have r1: "fst (on E info1 s) = Inr FromBus" by (simp add: on1)
    have r2: "fst (on E info2 s1) = Inr FromBus" by (simp add: on2)
    have r3: "kernel s2 = kernel s1" "nodeListeners s2 = nodeListeners s1"
      "bindedEventInfo s2 = bindedEventInfo s1" "bindedEventNames s2 = bindedEventNames s1"
      by (simp_all add: s2')
    have r4: "kernel s2 = kernel s" "nodeListeners s2 = nodeListeners s"
      "bindedEventInfo s2 = bindedEventInfo s"
      by (simp_all add: s2' s1')
    have cond: "\<not> (isEventNeedToBeHandled E t n \<and> (t = Kernel \<longrightarrow> kernel s \<noteq> None))"
      using skip by simp
    show ?thesis
      by (subst if_not_P [OF cond]) (intro conjI r1 r2 subs r3 nat2 r4)
  next
    case pend
    have k1: "ev_target (fst (resolve E info1)) = Kernel" using pend(2) t1 by simp
    have k2: "ev_target (fst (resolve E info2)) = Kernel" using pend(2) t2 by simp
    have u1: "ev_name (fst (resolve E info1)) \<notin> set (bindedEventNames s Kernel)"
      using unbound pend(2) n1 by simp
    have on1: "on E info1 s =
     (Inr FromBus,
      s\<lparr>logged := logged s @ snd (resolve E info1),
        pendingEventsInfo := (pendingEventsInfo s)(Kernel :=
            pendingEventsInfo s Kernel @ [(n, raw_id info1)]),
        buses := (buses s)(Kernel :=
            bus_on (raw_id info1) n (raw_fn info1)
              (ev_stage (fst (resolve E info1))) (buses s Kernel))\<rparr>)"
      using on_pending [OF f1 k1 u1 pend(3)] by (simp add: n1)
    have s1': "s1 = s\<lparr>logged := logged s @ snd (resolve E info1),
        pendingEventsInfo := (pendingEventsInfo s)(Kernel :=
            pendingEventsInfo s Kernel @ [(n, raw_id info1)]),
        buses := (buses s)(Kernel :=
            bus_on (raw_id info1) n (raw_fn info1)
              (ev_stage (fst (resolve E info1))) (buses s Kernel))\<rparr>"
      using s1 on1 by simp
    have u2: "ev_name (fst (resolve E info2)) \<notin> set (bindedEventNames s1 Kernel)"
      using unbound pend(2) n2 by (simp add: s1')
    have kn: "kernel s1 = None" using pend(3) by (simp add: s1')
    have on2: "on E info2 s1 =
     (Inr FromBus,
      s1\<lparr>logged := logged s1 @ snd (resolve E info2),
        pendingEventsInfo := (pendingEventsInfo s1)(Kernel :=
            pendingEventsInfo s1 Kernel @ [(n, raw_id info2)]),
        buses := (buses s1)(Kernel :=
            bus_on (raw_id info2) n (raw_fn info2)
              (ev_stage (fst (resolve E info2))) (buses s1 Kernel))\<rparr>)"
      using on_pending [OF f2 k2 u2 kn] by (simp add: n2)
    have s2': "s2 = s1\<lparr>logged := logged s1 @ snd (resolve E info2),
        pendingEventsInfo := (pendingEventsInfo s1)(Kernel :=
            pendingEventsInfo s1 Kernel @ [(n, raw_id info2)]),
        buses := (buses s1)(Kernel :=
            bus_on (raw_id info2) n (raw_fn info2)
              (ev_stage (fst (resolve E info2))) (buses s1 Kernel))\<rparr>"
      using s2 on2 by simp
    have "nativeListeners s2 t n = nativeListeners s t n"
      by (rule nativeListeners_cong) (simp_all add: s2' s1')
    then have nat2: "nativeListeners s2 t n = []" using nolistener by simp
    have subs: "subscribersOf (buses s2 t) n = [?sub1, ?sub2]"
      using nosub by (simp add: s2' s1' pend(2) subscribersOf_bus_on)
    have r1: "fst (on E info1 s) = Inr FromBus" by (simp add: on1)
    have r2: "fst (on E info2 s1) = Inr FromBus" by (simp add: on2)
    have r3: "kernel s2 = kernel s1" "nodeListeners s2 = nodeListeners s1"
      "bindedEventInfo s2 = bindedEventInfo s1" "bindedEventNames s2 = bindedEventNames s1"
      by (simp_all add: s2')
    have r4: "kernel s2 = kernel s" "nodeListeners s2 = nodeListeners s"
      "bindedEventInfo s2 = bindedEventInfo s"
      by (simp_all add: s2' s1')
    have cond: "\<not> (isEventNeedToBeHandled E t n \<and> (t = Kernel \<longrightarrow> kernel s \<noteq> None))"
      using pend by simp
    show ?thesis
      by (subst if_not_P [OF cond]) (intro conjI r1 r2 subs r3 nat2 r4)
  qed
qed

subsection \<open>What an unsubscription does to the relays\<close>

lemma remove_noop:
  assumes "\<not> isEventNeedToBeHandled E t n \<or> n \<notin> set (bindedEventNames s t) \<or>
           subscribersOf (buses s t) n \<noteq> []"
  shows "removeEventListenerOnTargetWhenIsUseless E n t s = (None, s)"
  using assms
  by (auto simp: removeEventListenerOnTargetWhenIsUseless_def indexOf_None_iff [symmetric]
      split: option.splits)

lemma remove_detaches:
  assumes wf: "wellFormedAt E s t" and bound: "n \<in> set (bindedEventNames s t)"
    and nosub: "subscribersOf (buses s t) n = []"
    and engine: "t = Kernel \<longrightarrow> kernel s \<noteq> None"
  shows "\<exists>i fn. i < length (bindedEventInfo s t) \<and> bindedEventInfo s t ! i = (n, fn) \<and>
           removeEventListenerOnTargetWhenIsUseless E n t s =
             (None,
              s\<lparr>kernel := (if t = Kernel then map_option (detach n fn) (kernel s) else kernel s),
                nodeListeners :=
                  (\<lambda>x. if t \<noteq> Kernel \<and> (x = getTargetDom s t \<or>
                             (t = VideoDom \<and> x \<in> set (videoExtendedNodes (dom_d s))))
                        then detach n fn (nodeListeners s x)
                        else nodeListeners s x),
                bindedEventInfo := (bindedEventInfo s)(t := splice1 i (bindedEventInfo s t)),
                bindedEventNames := (bindedEventNames s)(t := splice1 i (bindedEventNames s t))\<rparr>)"
proof -
  have lock: "map fst (bindedEventInfo s t) = bindedEventNames s t"
    and handled: "list_all (isEventNeedToBeHandled E t) (bindedEventNames s t)"
    using wf by (simp_all add: wellFormedAt_def)
  have h: "isEventNeedToBeHandled E t n" using handled bound by (simp add: list_all_iff)
  obtain i where i: "indexOf (bindedEventNames s t) n = Some i"
    using bound indexOf_None_iff [of "bindedEventNames s t" n] by (cases "indexOf (bindedEventNames s t) n") auto
  have il: "i < length (bindedEventNames s t)" and ni: "bindedEventNames s t ! i = n"
    using indexOf_Some [OF i] by simp_all
  have il': "i < length (bindedEventInfo s t)" using il lock [symmetric] by simp
  obtain fn where fn: "bindedEventInfo s t ! i = (n, fn)"
  proof -
    have "fst (bindedEventInfo s t ! i) = n"
      using ni il' lock [symmetric] by (simp add: nth_map)
    then show ?thesis using that [of "snd (bindedEventInfo s t ! i)"] by (metis prod.collapse)
  qed
  have fb: "findBinded (bindedEventInfo s t) n = Some (i, fn)"
    by (simp add: findBinded_indexOf lock i fn)
  show ?thesis
  proof (cases "t = Kernel")
    case True
    then obtain ls where ls: "kernel s = Some ls" using engine by auto
    show ?thesis
      apply (rule exI [of _ i], rule exI [of _ fn])
      using il' fn h True ls i nosub fb
      by (simp add: removeEventListenerOnTargetWhenIsUseless_def)
  next
    case False
    show ?thesis
      apply (rule exI [of _ i], rule exI [of _ fn])
      using il' fn h False i nosub fb
      by (simp add: removeEventListenerOnTargetWhenIsUseless_def Let_def
          removeEvent_def fold_removeEvent fun_eq_iff detach_idem)
  qed
qed

lemma off_function:
  assumes "isFunction (raw_fn info)"
  shows "off E info s =
     (case removeEventListenerOnTargetWhenIsUseless E (ev_name (fst (resolve E info)))
             (ev_target (fst (resolve E info)))
             (s\<lparr>logged := logged s @ snd (resolve E info),
                buses := (buses s)(ev_target (fst (resolve E info)) :=
                  bus_off (raw_id info) (ev_name (fst (resolve E info))) (raw_fn info)
                    (ev_stage (fst (resolve E info))) (buses s (ev_target (fst (resolve E info)))))\<rparr>) of
        (Some e, s2) \<Rightarrow> (Inl e, s2)
      | (None, s2) \<Rightarrow> (Inr FromBus, s2))"
  using assms by (simp add: off_def before_def prettify_function Let_def addLog_def)

lemma wellFormedAt_cong:
  "bindedEventInfo s' t = bindedEventInfo s t \<Longrightarrow> bindedEventNames s' t = bindedEventNames s t \<Longrightarrow>
   wellFormedAt E s' t = wellFormedAt E s t"
  by (simp add: wellFormedAt_def)

text \<open>
  C3. Let \<open>off\<close> be called with a callable handler, for the resolved target \<open>t\<close>
  and name \<open>n\<close>, and let \<open>b'\<close> be the bus of \<open>t\<close> after the handler has been
  removed. If the bookkeeping of \<open>t\<close> is well formed, \<open>n\<close> has a relay, \<open>b'\<close> has
  no subscriber left for \<open>n\<close> (and, for kernel, an engine is attached), then the call
  returns and does exactly this: the two tables of \<open>t\<close> lose the entries of \<open>n\<close> and
  keep every other entry in its order, the tables of the other targets, the pending
  queues and the nodes are as before; a relay \<open>f\<close> was recorded for \<open>n\<close>, and the
  listener \<open>(n, f)\<close>, and no other listener, is removed from the engine for kernel,
  from the node of the target otherwise, and for video-dom from every extended node as
  well; every other native source is as before, so the relay of every other name of
  \<open>t\<close> is still attached. If a subscriber remains, or \<open>n\<close> never had a relay, the
  call returns and changes the bus of \<open>t\<close> and the log only: the native sources, the
  bookkeeping and the pending queues are unchanged.
\<close>

theorem off_tears_down_relay:
  assumes fn: "isFunction (raw_fn info)"
    and t: "ev_target (fst (resolve E info)) = t" and n: "ev_name (fst (resolve E info)) = n"
    and b': "b' = bus_off (raw_id info) n (raw_fn info) (ev_stage (fst (resolve E info))) (buses s t)"
    and s': "s' = snd (off E info s)"
  shows "(wellFormedAt E s t \<and> n \<in> set (bindedEventNames s t) \<and> subscribersOf b' n = [] \<and>
          (t = Kernel \<longrightarrow> kernel s \<noteq> None) \<longrightarrow>
            fst (off E info s) = Inr FromBus \<and> buses s' = (buses s)(t := b') \<and>
            n \<notin> set (bindedEventNames s' t) \<and> n \<notin> fst ` set (bindedEventInfo s' t) \<and>
            bindedEventNames s' =
              (bindedEventNames s)(t := filter (\<lambda>m. m \<noteq> n) (bindedEventNames s t)) \<and>
            bindedEventInfo s' =
              (bindedEventInfo s)(t := filter (\<lambda>(m, f). m \<noteq> n) (bindedEventInfo s t)) \<and>
            pendingEventsInfo s' = pendingEventsInfo s \<and> dom_d s' = dom_d s \<and>
            (\<forall>m. m \<noteq> n \<longrightarrow> nativeListeners s' t m = nativeListeners s t m) \<and>
            (\<exists>f. (n, f) \<in> set (bindedEventInfo s t)) \<and>
            (\<forall>f. (n, f) \<in> set (bindedEventInfo s t) \<longrightarrow>
               kernel s' =
                 (if t = Kernel
                  then map_option (filter (\<lambda>(k, g, p). \<not> (k = n \<and> g = f))) (kernel s)
                  else kernel s) \<and>
               nodeListeners s' =
                 (\<lambda>x. if t \<noteq> Kernel \<and> (x = getTargetDom s t \<or>
                            (t = VideoDom \<and> x \<in> set (videoExtendedNodes (dom_d s))))
                      then filter (\<lambda>(k, g, p). \<not> (k = n \<and> g = f)) (nodeListeners s x)
                      else nodeListeners s x) \<and>
               (t = Kernel \<longrightarrow> (\<exists>ls. kernel s' = Some ls \<and> \<not> attached n f ls)) \<and>
               (t \<noteq> Kernel \<longrightarrow> \<not> attached n f (nodeListeners s' (getTargetDom s t))) \<and>
               (t = VideoDom \<longrightarrow>
                  (\<forall>x \<in> set (videoExtendedNodes (dom_d s)). \<not> attached n f (nodeListeners s' x)))))
       \<and> (subscribersOf b' n \<noteq> [] \<or> n \<notin> set (bindedEventNames s t) \<longrightarrow>
            off E info s =
              (Inr FromBus,
               s\<lparr>logged := logged s @ snd (resolve E info), buses := (buses s)(t := b')\<rparr>) \<and>
            fst (off E info s) = Inr FromBus \<and> buses s' = (buses s)(t := b') \<and>
            kernel s' = kernel s \<and> nodeListeners s' = nodeListeners s \<and>
            bindedEventInfo s' = bindedEventInfo s \<and> bindedEventNames s' = bindedEventNames s \<and>
            pendingEventsInfo s' = pendingEventsInfo s)"
proof (intro conjI impI)
  let ?s1 = "s\<lparr>logged := logged s @ snd (resolve E info), buses := (buses s)(t := b')\<rparr>"
  have off: "off E info s =
     (case removeEventListenerOnTargetWhenIsUseless E n t ?s1 of
        (Some e, s2) \<Rightarrow> (Inl e, s2)
      | (None, s2) \<Rightarrow> (Inr FromBus, s2))"
    by (simp add: off_function [OF fn] t n b')
  {
    assume "subscribersOf b' n \<noteq> [] \<or> n \<notin> set (bindedEventNames s t)"
    then have "removeEventListenerOnTargetWhenIsUseless E n t ?s1 = (None, ?s1)"
      by (intro remove_noop) auto
    then have eq: "off E info s = (Inr FromBus, ?s1)" by (simp add: off)
    then have s1: "s' = ?s1" by (simp add: s')
    show "off E info s = (Inr FromBus, ?s1)" by (rule eq)
    show "fst (off E info s) = Inr FromBus" by (simp add: eq)
    show "buses s' = (buses s)(t := b')" by (simp add: s1)
    show "kernel s' = kernel s" by (simp add: s1)
    show "nodeListeners s' = nodeListeners s" by (simp add: s1)
    show "bindedEventInfo s' = bindedEventInfo s" by (simp add: s1)
    show "bindedEventNames s' = bindedEventNames s" by (simp add: s1)
    show "pendingEventsInfo s' = pendingEventsInfo s" by (simp add: s1)
  }
  {
    assume a: "wellFormedAt E s t \<and> n \<in> set (bindedEventNames s t) \<and> subscribersOf b' n = [] \<and>
          (t = Kernel \<longrightarrow> kernel s \<noteq> None)"
    have wf: "wellFormedAt E s t" and wf1: "wellFormedAt E ?s1 t"
      using a by (simp_all add: wellFormedAt_def)
    have bound: "n \<in> set (bindedEventNames ?s1 t)" using a by simp
    have nosub: "subscribersOf (buses ?s1 t) n = []" using a by simp
    have engine: "t = Kernel \<longrightarrow> kernel ?s1 \<noteq> None" using a by simp
    from remove_detaches [OF wf1 bound nosub engine, of ]
    obtain i where "\<exists>f. i < length (bindedEventInfo ?s1 t) \<and> bindedEventInfo ?s1 t ! i = (n, f) \<and>
           removeEventListenerOnTargetWhenIsUseless E n t ?s1 =
             (None,
              ?s1\<lparr>kernel := (if t = Kernel then map_option (detach n f) (kernel ?s1) else kernel ?s1),
                nodeListeners :=
                  (\<lambda>x. if t \<noteq> Kernel \<and> (x = getTargetDom ?s1 t \<or>
                             (t = VideoDom \<and> x \<in> set (videoExtendedNodes (dom_d ?s1))))
                        then detach n f (nodeListeners ?s1 x)
                        else nodeListeners ?s1 x),
                bindedEventInfo := (bindedEventInfo ?s1)(t := splice1 i (bindedEventInfo ?s1 t)),
                bindedEventNames := (bindedEventNames ?s1)(t := splice1 i (bindedEventNames ?s1 t))\<rparr>)"
      by (rule exE)
    then obtain g where all: "i < length (bindedEventInfo ?s1 t) \<and> bindedEventInfo ?s1 t ! i = (n, g) \<and>
           removeEventListenerOnTargetWhenIsUseless E n t ?s1 =
             (None,
              ?s1\<lparr>kernel := (if t = Kernel then map_option (detach n g) (kernel ?s1) else kernel ?s1),
                nodeListeners :=
                  (\<lambda>x. if t \<noteq> Kernel \<and> (x = getTargetDom ?s1 t \<or>
                             (t = VideoDom \<and> x \<in> set (videoExtendedNodes (dom_d ?s1))))
                        then detach n g (nodeListeners ?s1 x)
                        else nodeListeners ?s1 x),
                bindedEventInfo := (bindedEventInfo ?s1)(t := splice1 i (bindedEventInfo ?s1 t)),
                bindedEventNames := (bindedEventNames ?s1)(t := splice1 i (bindedEventNames ?s1 t))\<rparr>)"
      by (rule exE)
    have il: "i < length (bindedEventInfo s t)" and at: "bindedEventInfo s t ! i = (n, g)"
      using all by simp_all
    note rem = all [THEN conjunct2, THEN conjunct2]
    have lock: "map fst (bindedEventInfo s t) = bindedEventNames s t"
      and dist: "distinct (bindedEventNames s t)"
      using wf by (simp_all add: wellFormedAt_def)
    have iln: "i < length (bindedEventNames s t)" using il lock [symmetric] by simp
    have nth: "bindedEventNames s t ! i = n" using il at lock [symmetric] by (simp add: nth_map)
    have gone: "n \<notin> set (splice1 i (bindedEventNames s t))"
      using splice1_distinct [OF dist iln] nth by simp
    have gone': "n \<notin> fst ` set (splice1 i (bindedEventInfo s t))"
    proof -
      have "fst ` set (splice1 i (bindedEventInfo s t)) = set (map fst (splice1 i (bindedEventInfo s t)))"
        by simp
      also have "\<dots> = set (splice1 i (bindedEventNames s t))"
        by (simp only: map_splice1 lock)
      finally show ?thesis using gone by simp
    qed
    have gt: "getTargetDom ?s1 t = getTargetDom s t"
      by (rule getTargetDom_cong) simp
    have eq: "off E info s = (Inr FromBus, snd (removeEventListenerOnTargetWhenIsUseless E n t ?s1))"
      by (simp add: off rem)
    have s1: "s' = snd (removeEventListenerOnTargetWhenIsUseless E n t ?s1)" by (simp add: s' eq)
    have k': "kernel s' = (if t = Kernel then map_option (detach n g) (kernel s) else kernel s)"
      by (simp add: s1 rem)
    have nl': "nodeListeners s' =
        (\<lambda>x. if t \<noteq> Kernel \<and> (x = getTargetDom s t \<or>
                             (t = VideoDom \<and> x \<in> set (videoExtendedNodes (dom_d s))))
                        then detach n g (nodeListeners s x)
                        else nodeListeners s x)"
      by (simp add: s1 rem gt cong: if_cong)
    have mem: "(n, g) \<in> set (bindedEventInfo s t)" using il at by (metis nth_mem)
    have sn: "splice1 i (bindedEventNames s t) = filter (\<lambda>m. m \<noteq> n) (bindedEventNames s t)"
      using splice1_filter [of "\<lambda>m. m" "bindedEventNames s t" i] dist iln nth by simp
    have si: "splice1 i (bindedEventInfo s t) = filter (\<lambda>(m, f). m \<noteq> n) (bindedEventInfo s t)"
      using splice1_filter [of fst "bindedEventInfo s t" i] dist lock il at
      by (simp add: case_prod_unfold)
    have src: "sourceListeners s' t = detach n g (sourceListeners s t)"
    proof (cases "t = Kernel")
      case True
      then obtain ls where "kernel s = Some ls" using a by auto
      then show ?thesis using True by (simp add: sourceListeners_def k')
    next
      case False
      have "getTargetDom s' t = getTargetDom s t"
        by (rule getTargetDom_cong) (simp add: s1 rem)
      then show ?thesis using False by (simp add: sourceListeners_def nl')
    qed
    show "fst (off E info s) = Inr FromBus" by (simp add: eq)
    show "buses s' = (buses s)(t := b')" by (simp add: s1 rem)
    show "bindedEventNames s' =
              (bindedEventNames s)(t := filter (\<lambda>m. m \<noteq> n) (bindedEventNames s t))"
      by (simp add: s1 rem sn)
    show "bindedEventInfo s' =
              (bindedEventInfo s)(t := filter (\<lambda>(m, f). m \<noteq> n) (bindedEventInfo s t))"
      by (simp add: s1 rem si)
    show "pendingEventsInfo s' = pendingEventsInfo s" by (simp add: s1 rem)
    show "dom_d s' = dom_d s" by (simp add: s1 rem)
    show "\<forall>m. m \<noteq> n \<longrightarrow> nativeListeners s' t m = nativeListeners s t m"
      by (simp add: nativeListeners_def src case_prod_unfold filter_detach_other)
    show "\<exists>f. (n, f) \<in> set (bindedEventInfo s t)" using mem by blast
    show "n \<notin> set (bindedEventNames s' t)" using gone by (simp add: s1 rem)
    show "n \<notin> fst ` set (bindedEventInfo s' t)" using gone' by (simp add: s1 rem)
    show "\<forall>f. (n, f) \<in> set (bindedEventInfo s t) \<longrightarrow>
               kernel s' =
                 (if t = Kernel
                  then map_option (filter (\<lambda>(k, g, p). \<not> (k = n \<and> g = f))) (kernel s)
                  else kernel s) \<and>
               nodeListeners s' =
                 (\<lambda>x. if t \<noteq> Kernel \<and> (x = getTargetDom s t \<or>
                            (t = VideoDom \<and> x \<in> set (videoExtendedNodes (dom_d s))))
                      then filter (\<lambda>(k, g, p). \<not> (k = n \<and> g = f)) (nodeListeners s x)
                      else nodeListeners s x) \<and>
               (t = Kernel \<longrightarrow> (\<exists>ls. kernel s' = Some ls \<and> \<not> attached n f ls)) \<and>
               (t \<noteq> Kernel \<longrightarrow> \<not> attached n f (nodeListeners s' (getTargetDom s t))) \<and>
               (t = VideoDom \<longrightarrow>
                  (\<forall>x \<in> set (videoExtendedNodes (dom_d s)). \<not> attached n f (nodeListeners s' x)))"
    proof (intro allI impI)
      fix f assume f: "(n, f) \<in> set (bindedEventInfo s t)"
      have "(n, g) \<in> set (bindedEventInfo s t)" using il at by (metis nth_mem)
      then have fg: "f = g"
        using eq_key_imp_eq_value [of "bindedEventInfo s t" n f g] f dist lock by simp
      have kf: "kernel s' =
                 (if t = Kernel
                  then map_option (filter (\<lambda>(k, g, p). \<not> (k = n \<and> g = f))) (kernel s)
                  else kernel s)"
        unfolding k' fg detach_def by (rule refl)
      have nf: "nodeListeners s' =
                 (\<lambda>x. if t \<noteq> Kernel \<and> (x = getTargetDom s t \<or>
                            (t = VideoDom \<and> x \<in> set (videoExtendedNodes (dom_d s))))
                      then filter (\<lambda>(k, g, p). \<not> (k = n \<and> g = f)) (nodeListeners s x)
                      else nodeListeners s x)"
        unfolding nl' fg detach_def by (rule refl)
      show "kernel s' =
                 (if t = Kernel
                  then map_option (filter (\<lambda>(k, g, p). \<not> (k = n \<and> g = f))) (kernel s)
                  else kernel s) \<and>
               nodeListeners s' =
                 (\<lambda>x. if t \<noteq> Kernel \<and> (x = getTargetDom s t \<or>
                            (t = VideoDom \<and> x \<in> set (videoExtendedNodes (dom_d s))))
                      then filter (\<lambda>(k, g, p). \<not> (k = n \<and> g = f)) (nodeListeners s x)
                      else nodeListeners s x) \<and>
               (t = Kernel \<longrightarrow> (\<exists>ls. kernel s' = Some ls \<and> \<not> attached n f ls)) \<and>
               (t \<noteq> Kernel \<longrightarrow> \<not> attached n f (nodeListeners s' (getTargetDom s t))) \<and>
               (t = VideoDom \<longrightarrow>
                  (\<forall>x \<in> set (videoExtendedNodes (dom_d s)). \<not> attached n f (nodeListeners s' x)))"
        using a k' nl' kf nf by (auto simp: fg not_attached_detach simp del: split_paired_All)
    qed
  }
qed

subsection \<open>The pending queue\<close>

lemma drainPending_fold:
  "drainPending E t copy s = fold (\<lambda>(n, i). addEventListenerOnTarget E n t i) (rev copy) s"
proof (induction copy arbitrary: s rule: rev_induct)
  case Nil
  show ?case by (subst drainPending.simps) simp
next
  case (snoc x xs)
  show ?case
    by (subst drainPending.simps) (simp add: snoc split: prod.splits)
qed

lemma kernel_step:
  assumes engine: "kernel s \<noteq> None" and step: "kernelInStep s"
  shows "kernel (addEventListenerOnTarget E n Kernel i s) \<noteq> None \<and>
         kernelInStep (addEventListenerOnTarget E n Kernel i s) \<and>
         n \<in> set (bindedEventNames (addEventListenerOnTarget E n Kernel i s) Kernel) \<and>
         set (bindedEventNames s Kernel) \<subseteq>
           set (bindedEventNames (addEventListenerOnTarget E n Kernel i s) Kernel) \<and>
         pendingEventsInfo (addEventListenerOnTarget E n Kernel i s) = pendingEventsInfo s"
proof (cases "n \<in> set (bindedEventNames s Kernel)")
  case True
  then have "addEventListenerOnTarget E n Kernel i s = s" by (intro add_skips) simp
  then show ?thesis using assms True by auto
next
  case False
  have h: "isEventNeedToBeHandled E Kernel n" by (simp add: isEventNeedToBeHandled_def)
  obtain ls where ls: "kernel s = Some ls" using engine by auto
  have e3: "Kernel = Kernel \<longrightarrow> kernel s \<noteq> None" using engine by simp
  from add_attaches [OF h False e3, of i]
  obtain fn where fn: "relayTarget fn = Kernel" and
    eq: "addEventListenerOnTarget E n Kernel i s =
           s\<lparr>allocated := Suc (allocated s),
             kernel := Some (attach n fn False ls),
             nodeListeners := nodeListeners s,
             bindedEventNames := (bindedEventNames s)(Kernel := bindedEventNames s Kernel @ [n]),
             bindedEventInfo := (bindedEventInfo s)(Kernel := bindedEventInfo s Kernel @ [(n, fn)])\<rparr>"
    by (auto simp: ls)
  have "length (nativeListeners s Kernel n) = 0"
    using step False by (simp add: kernelInStep_def)
  then have zero: "filter (\<lambda>(key, f, q). key = n \<and> relayTarget f = Kernel) ls = []"
    by (simp add: nativeListeners_def sourceListeners_def ls)
  have "kernelInStep (addEventListenerOnTarget E n Kernel i s)"
    unfolding kernelInStep_def
  proof
    fix m
    show "length (nativeListeners (addEventListenerOnTarget E n Kernel i s) Kernel m) =
          (if m \<in> set (bindedEventNames (addEventListenerOnTarget E n Kernel i s) Kernel) then 1 else 0)"
    proof (cases "m = n")
      case True
      then show ?thesis
        using filter_attach_new [OF zero fn, of False]
        by (simp add: eq nativeListeners_def sourceListeners_def)
    next
      case False
      have "length (nativeListeners s Kernel m) =
            (if m \<in> set (bindedEventNames s Kernel) then 1 else 0)"
        using step by (simp add: kernelInStep_def)
      then show ?thesis
        using False filter_attach_other [OF False, of Kernel fn False ls]
        by (simp add: eq nativeListeners_def sourceListeners_def ls)
    qed
  qed
  then show ?thesis by (auto simp: eq)
qed

lemma kernel_fold:
  assumes "kernel s \<noteq> None" and "kernelInStep s"
  shows "kernel (fold (\<lambda>(n, i). addEventListenerOnTarget E n Kernel i) q s) \<noteq> None \<and>
         kernelInStep (fold (\<lambda>(n, i). addEventListenerOnTarget E n Kernel i) q s) \<and>
         fst ` set q \<union> set (bindedEventNames s Kernel) \<subseteq>
           set (bindedEventNames (fold (\<lambda>(n, i). addEventListenerOnTarget E n Kernel i) q s) Kernel) \<and>
         pendingEventsInfo (fold (\<lambda>(n, i). addEventListenerOnTarget E n Kernel i) q s) =
           pendingEventsInfo s"
  using assms
proof (induction q arbitrary: s)
  case Nil
  then show ?case by simp
next
  case (Cons x q)
  obtain n i where x: "x = (n, i)" by (cases x)
  let ?s = "addEventListenerOnTarget E n Kernel i s"
  note st = kernel_step [OF Cons.prems, of E n i]
  have ih: "kernel (fold (\<lambda>(n, i). addEventListenerOnTarget E n Kernel i) q ?s) \<noteq> None \<and>
         kernelInStep (fold (\<lambda>(n, i). addEventListenerOnTarget E n Kernel i) q ?s) \<and>
         fst ` set q \<union> set (bindedEventNames ?s Kernel) \<subseteq>
           set (bindedEventNames (fold (\<lambda>(n, i). addEventListenerOnTarget E n Kernel i) q ?s) Kernel) \<and>
         pendingEventsInfo (fold (\<lambda>(n, i). addEventListenerOnTarget E n Kernel i) q ?s) =
           pendingEventsInfo ?s"
    using st by (intro Cons.IH) simp_all
  show ?case using ih st by (auto simp: x)
qed

text \<open>
  C4. A subscription to a kernel event with no engine attached (and no relay recorded
  for the name) attaches nothing and appends the name and id to the pending queue of
  kernel. \<open>applyPendingEvents\<close> empties the queue and subscribes its entries again
  with \<open>addEventListenerOnTarget\<close>, last queued first. With an engine attached and in
  step with the bookkeeping, the queue is empty afterwards and the engine holds exactly
  one native listener for every queued name, however often the name was queued. On an
  empty queue \<open>applyPendingEvents\<close> changes nothing.
\<close>

theorem pending_queue_flush:
  "(isFunction (raw_fn info) \<and> ev_target (fst (resolve E info)) = Kernel \<and> kernel s = None \<and>
    ev_name (fst (resolve E info)) \<notin> set (bindedEventNames s Kernel) \<longrightarrow>
      on E info s =
        (Inr FromBus,
         s\<lparr>logged := logged s @ snd (resolve E info),
           pendingEventsInfo := (pendingEventsInfo s)(Kernel :=
             pendingEventsInfo s Kernel @ [(ev_name (fst (resolve E info)), raw_id info)]),
           buses := (buses s)(Kernel :=
             bus_on (raw_id info) (ev_name (fst (resolve E info))) (raw_fn info)
               (ev_stage (fst (resolve E info))) (buses s Kernel))\<rparr>) \<and>
      kernel (snd (on E info s)) = None \<and>
      nodeListeners (snd (on E info s)) = nodeListeners s \<and>
      bindedEventInfo (snd (on E info s)) = bindedEventInfo s \<and>
      bindedEventNames (snd (on E info s)) = bindedEventNames s)
   \<and> applyPendingEvents E t s =
        fold (\<lambda>(n, i). addEventListenerOnTarget E n t i) (rev (pendingEventsInfo s t))
          (s\<lparr>pendingEventsInfo := (pendingEventsInfo s)(t := [])\<rparr>)
   \<and> (kernel s \<noteq> None \<and> kernelInStep s \<longrightarrow>
        pendingEventsInfo (applyPendingEvents E Kernel s) Kernel = [] \<and>
        (\<forall>(n, i) \<in> set (pendingEventsInfo s Kernel).
           length (nativeListeners (applyPendingEvents E Kernel s) Kernel n) = 1) \<and>
        kernelInStep (applyPendingEvents E Kernel s))
   \<and> (pendingEventsInfo s t = [] \<longrightarrow> applyPendingEvents E t s = s)"
proof (intro conjI impI)
  show flush: "applyPendingEvents E t s =
        fold (\<lambda>(n, i). addEventListenerOnTarget E n t i) (rev (pendingEventsInfo s t))
          (s\<lparr>pendingEventsInfo := (pendingEventsInfo s)(t := [])\<rparr>)" for t
    by (simp add: applyPendingEvents_def drainPending_fold)
  {
    assume "pendingEventsInfo s t = []"
    then have "(pendingEventsInfo s)(t := []) = pendingEventsInfo s" by (simp add: fun_upd_idem)
    then show "applyPendingEvents E t s = s"
      using \<open>pendingEventsInfo s t = []\<close> by (simp add: flush)
  }
  {
    assume a: "isFunction (raw_fn info) \<and> ev_target (fst (resolve E info)) = Kernel \<and>
      kernel s = None \<and> ev_name (fst (resolve E info)) \<notin> set (bindedEventNames s Kernel)"
    then have eq: "on E info s =
        (Inr FromBus,
         s\<lparr>logged := logged s @ snd (resolve E info),
           pendingEventsInfo := (pendingEventsInfo s)(Kernel :=
             pendingEventsInfo s Kernel @ [(ev_name (fst (resolve E info)), raw_id info)]),
           buses := (buses s)(Kernel :=
             bus_on (raw_id info) (ev_name (fst (resolve E info))) (raw_fn info)
               (ev_stage (fst (resolve E info))) (buses s Kernel))\<rparr>)"
      by (intro on_pending) simp_all
    show "on E info s =
        (Inr FromBus,
         s\<lparr>logged := logged s @ snd (resolve E info),
           pendingEventsInfo := (pendingEventsInfo s)(Kernel :=
             pendingEventsInfo s Kernel @ [(ev_name (fst (resolve E info)), raw_id info)]),
           buses := (buses s)(Kernel :=
             bus_on (raw_id info) (ev_name (fst (resolve E info))) (raw_fn info)
               (ev_stage (fst (resolve E info))) (buses s Kernel))\<rparr>)"
      by (rule eq)
    show "kernel (snd (on E info s)) = None" using a by (simp add: eq)
    show "nodeListeners (snd (on E info s)) = nodeListeners s" by (simp add: eq)
    show "bindedEventInfo (snd (on E info s)) = bindedEventInfo s" by (simp add: eq)
    show "bindedEventNames (snd (on E info s)) = bindedEventNames s" by (simp add: eq)
  }
  {
    assume a: "kernel s \<noteq> None \<and> kernelInStep s"
    let ?s0 = "s\<lparr>pendingEventsInfo := (pendingEventsInfo s)(Kernel := [])\<rparr>"
    have k0: "kernel ?s0 \<noteq> None" using a by simp
    have "nativeListeners ?s0 Kernel m = nativeListeners s Kernel m" for m
      by (rule nativeListeners_cong) simp_all
    then have i0: "kernelInStep ?s0" using a by (simp add: kernelInStep_def)
    note f = kernel_fold [OF k0 i0, of E "rev (pendingEventsInfo s Kernel)"]
    have ap: "applyPendingEvents E Kernel s =
        fold (\<lambda>(n, i). addEventListenerOnTarget E n Kernel i) (rev (pendingEventsInfo s Kernel)) ?s0"
      by (rule flush)
    show "pendingEventsInfo (applyPendingEvents E Kernel s) Kernel = []"
      using f by (simp add: ap)
    show step: "kernelInStep (applyPendingEvents E Kernel s)"
      using f by (simp add: ap)
    have names: "fst ` set (pendingEventsInfo s Kernel) \<subseteq>
        set (bindedEventNames (applyPendingEvents E Kernel s) Kernel)"
      using f by (simp add: ap)
    show "\<forall>(n, i) \<in> set (pendingEventsInfo s Kernel).
           length (nativeListeners (applyPendingEvents E Kernel s) Kernel n) = 1"
    proof (clarify)
      fix n i assume "(n, i) \<in> set (pendingEventsInfo s Kernel)"
      then have "n \<in> set (bindedEventNames (applyPendingEvents E Kernel s) Kernel)"
        using names by force
      then show "length (nativeListeners (applyPendingEvents E Kernel s) Kernel n) = 1"
        using step by (simp add: kernelInStep_def)
    qed
  }
qed

subsection \<open>The tracker\<close>

lemma tracker_guard:
  assumes "name = ''mouseenter'' \<or> name = ''mouseleave''"
  shows "isEventEmitalbe \<lparr>emit_name = JStr name, emit_id = JStr ''_vm'',
                         emit_target = Some VideoDom, emit_stage = None\<rparr> = (True, [])"
  using assms
  apply (elim disjE)
   apply (simp_all add: isEventEmitalbe_def secondaryReg_def)
  done

lemma tracker_resolve:
  assumes "name = ''mouseenter'' \<or> name = ''mouseleave''"
  shows "getEventInfo E name (Some VideoDom) None =
           (\<lparr>ev_name = name, ev_stage = StageMain, ev_target = VideoDom\<rparr>, [])"
  using assms
  apply (elim disjE)
   apply (simp_all add: getEventInfo_def getEventTargetByOldLogic_def targetKeyReg_def
      getEventStage_def secondaryReg_def Let_def)
  done

lemma tracker_emits:
  assumes "name = ''mouseenter'' \<or> name = ''mouseleave''"
  shows "triggerSync E \<lparr>emit_name = JStr name, emit_id = JStr ''_vm'',
                         emit_target = Some VideoDom, emit_stage = None\<rparr> args s =
         (Inr FromBus,
          s\<lparr>buses := (buses s)(VideoDom := bus_dispatch TriggerSync name args (buses s VideoDom))\<rparr>)"
  by (simp add: triggerSync_def runnable_def before_def tracker_guard [OF assms]
      checkEventEmitParameter_def tracker_resolve [OF assms] busCall_def addLog_def)

text \<open>
  C7, as amended. For a native event of the name the tracker listens to: it emits a
  synthetic leave and sets the flag to false exactly when the flag is true, the event is
  a leave and the destination is outside the surface; it emits a synthetic enter and
  sets the flag to true exactly when the flag is false, the event is an enter and the
  element the listener is on is inside the surface; in every other case nothing changes
  and nothing is emitted. So a leave towards a node of the surface never changes
  anything, and neither does an enter while the flag is true. From a false flag the
  sequence enter(parent), enter(child), leave(parent to child), leave(child to outside)
  emits exactly one enter and then one leave, and ends with the flag false.
\<close>

theorem pointer_tracker:
  "(mouseInVideo (dom_d s) \<and> evtype e = ''mouseleave'' \<and>
      \<not> isNodeInsideVideo (dom_d s) (destination e) \<longrightarrow>
      mouseMoveFn E (evtype e) [EventObj e] s =
        (Inr FromBus,
         s\<lparr>dom_d := (dom_d s)\<lparr>mouseInVideo := False\<rparr>,
           buses := (buses s)(VideoDom :=
             bus_dispatch TriggerSync ''mouseleave'' [EventObj e] (buses s VideoDom))\<rparr>))
   \<and> (\<not> mouseInVideo (dom_d s) \<and> evtype e = ''mouseenter'' \<and>
      isNodeInsideVideo (dom_d s) (Some (currentTarget e)) \<longrightarrow>
      mouseMoveFn E (evtype e) [EventObj e] s =
        (Inr FromBus,
         s\<lparr>dom_d := (dom_d s)\<lparr>mouseInVideo := True\<rparr>,
           buses := (buses s)(VideoDom :=
             bus_dispatch TriggerSync ''mouseenter'' [EventObj e] (buses s VideoDom))\<rparr>))
   \<and> (\<not> (mouseInVideo (dom_d s) \<and> evtype e = ''mouseleave'' \<and>
          \<not> isNodeInsideVideo (dom_d s) (destination e)) \<and>
       \<not> (\<not> mouseInVideo (dom_d s) \<and> evtype e = ''mouseenter'' \<and>
          isNodeInsideVideo (dom_d s) (Some (currentTarget e))) \<longrightarrow>
      mouseMoveFn E (evtype e) [EventObj e] s = (Inr Undefined, s))
   \<and> (evtype e = ''mouseleave'' \<and> isNodeInsideVideo (dom_d s) (destination e) \<longrightarrow>
      mouseMoveFn E (evtype e) [EventObj e] s = (Inr Undefined, s))
   \<and> (evtype e = ''mouseenter'' \<and> mouseInVideo (dom_d s) \<longrightarrow>
      mouseMoveFn E (evtype e) [EventObj e] s = (Inr Undefined, s))
   \<and> (\<not> mouseInVideo (dom_d s) \<and>
       isNodeInsideVideo (dom_d s) (Some parent) \<and> isNodeInsideVideo (dom_d s) (Some child) \<and>
       \<not> isNodeInsideVideo (dom_d s) outside \<longrightarrow>
      track E (mouse ''mouseleave'' child outside)
        (track E (mouse ''mouseleave'' parent (Some child))
          (track E (mouse ''mouseenter'' child (Some parent))
            (track E (mouse ''mouseenter'' parent outside) s))) =
      s\<lparr>buses := (buses s)(VideoDom :=
           (buses s VideoDom)\<lparr>dispatched := dispatched (buses s VideoDom) @
              [(TriggerSync, ''mouseenter'', [EventObj (mouse ''mouseenter'' parent outside)]),
               (TriggerSync, ''mouseleave'', [EventObj (mouse ''mouseleave'' child outside)])]\<rparr>)\<rparr>)"
proof (intro conjI impI)
  show "mouseMoveFn E (evtype e) [EventObj e] s =
        (Inr FromBus,
         s\<lparr>dom_d := (dom_d s)\<lparr>mouseInVideo := False\<rparr>,
           buses := (buses s)(VideoDom :=
             bus_dispatch TriggerSync ''mouseleave'' [EventObj e] (buses s VideoDom))\<rparr>)"
    if "mouseInVideo (dom_d s) \<and> evtype e = ''mouseleave'' \<and>
      \<not> isNodeInsideVideo (dom_d s) (destination e)"
    using that by (simp add: mouseMoveFn_def destination_def tracker_emits Let_def)
  show "mouseMoveFn E (evtype e) [EventObj e] s =
        (Inr FromBus,
         s\<lparr>dom_d := (dom_d s)\<lparr>mouseInVideo := True\<rparr>,
           buses := (buses s)(VideoDom :=
             bus_dispatch TriggerSync ''mouseenter'' [EventObj e] (buses s VideoDom))\<rparr>)"
    if "\<not> mouseInVideo (dom_d s) \<and> evtype e = ''mouseenter'' \<and>
      isNodeInsideVideo (dom_d s) (Some (currentTarget e))"
    using that by (simp add: mouseMoveFn_def destination_def tracker_emits Let_def)
  show "mouseMoveFn E (evtype e) [EventObj e] s = (Inr Undefined, s)"
    if "\<not> (mouseInVideo (dom_d s) \<and> evtype e = ''mouseleave'' \<and>
          \<not> isNodeInsideVideo (dom_d s) (destination e)) \<and>
       \<not> (\<not> mouseInVideo (dom_d s) \<and> evtype e = ''mouseenter'' \<and>
          isNodeInsideVideo (dom_d s) (Some (currentTarget e)))"
    using that by (auto simp: mouseMoveFn_def destination_def Let_def)
  show "mouseMoveFn E (evtype e) [EventObj e] s = (Inr Undefined, s)"
    if "evtype e = ''mouseleave'' \<and> isNodeInsideVideo (dom_d s) (destination e)"
    using that by (auto simp: mouseMoveFn_def destination_def Let_def)
  show "mouseMoveFn E (evtype e) [EventObj e] s = (Inr Undefined, s)"
    if "evtype e = ''mouseenter'' \<and> mouseInVideo (dom_d s)"
    using that by (auto simp: mouseMoveFn_def destination_def Let_def)
  show "track E (mouse ''mouseleave'' child outside)
        (track E (mouse ''mouseleave'' parent (Some child))
          (track E (mouse ''mouseenter'' child (Some parent))
            (track E (mouse ''mouseenter'' parent outside) s))) =
      s\<lparr>buses := (buses s)(VideoDom :=
           (buses s VideoDom)\<lparr>dispatched := dispatched (buses s VideoDom) @
              [(TriggerSync, ''mouseenter'', [EventObj (mouse ''mouseenter'' parent outside)]),
               (TriggerSync, ''mouseleave'', [EventObj (mouse ''mouseleave'' child outside)])]\<rparr>)\<rparr>"
    if "\<not> mouseInVideo (dom_d s) \<and>
       isNodeInsideVideo (dom_d s) (Some parent) \<and> isNodeInsideVideo (dom_d s) (Some child) \<and>
       \<not> isNodeInsideVideo (dom_d s) outside"
    using that
    by (simp add: track_def mouse_def mouseMoveFn_def tracker_emits Let_def bus_dispatch_def)
qed

subsection \<open>Runs of the sample player\<close>

lemmas run_defs = on_def off_def once_def before_def runnable_def prettifyEventParameter_def
  resolver_defs Let_def addLog_def addEventListenerOnTarget_def isEventNeedToBeHandled_def
  newRelay_def pushBinded_def addEventOnDom_def addEvent_def removeEvent_def attach_def detach_def
  getTargetDom_def addPendingEvent_def removeEventListenerOnTargetWhenIsUseless_def
  subscribersOf_def bus_on_def bus_off_def bus_once_def bus_dispatch_def splice1_def
  nativeListeners_def sourceListeners_def attached_def resolve_def
  request_def emission_def sampleEnv_def sampleDom_def samplePlayer_def sampleNoEngine_def
  newBinder_def

lemma clicked_once: "snd (on sampleEnv (request ''click'' (Some Container) ''a'' (JFun 1)) samplePlayer) =
  samplePlayer\<lparr>allocated := 1,
     nodeListeners := (\<lambda>_. [])(1 := [(''click'', Relay 0 (Forward TriggerSync Container ''click'' ''container''), False)]),
     bindedEventNames := (\<lambda>_. [])(Container := [''click'']),
     bindedEventInfo := (\<lambda>_. [])(Container := [(''click'', Relay 0 (Forward TriggerSync Container ''click'' ''container''))]),
     buses := (\<lambda>_. \<lparr>events = [], dispatched = []\<rparr>)(Container := \<lparr>events = [\<lparr>sub_id = ''a'', sub_name = ''click'', sub_fn = JFun 1, sub_stage = StageMain, sub_once = False\<rparr>], dispatched = []\<rparr>)\<rparr>"
  by (simp add: run_defs)

text \<open>
  C1. After one subscription to click on the container, \<open>destroy\<close> returns and has
  detached the relay from the container node, but the bookkeeping of container still
  records the name and the relay: every round of the loop clears the tables of kernel.
\<close>

theorem destroy_keeps_container_bookkeeping:
  "fst (destroy (snd (on sampleEnv (request ''click'' (Some Container) ''a'' (JFun 1)) samplePlayer)))
     = Inr Undefined
   \<and> nodeListeners (snd (destroy (snd (on sampleEnv (request ''click'' (Some Container) ''a'' (JFun 1))
        samplePlayer)))) 1 = []
   \<and> bindedEventNames (snd (destroy (snd (on sampleEnv (request ''click'' (Some Container) ''a'' (JFun 1))
        samplePlayer)))) Container = [''click'']
   \<and> bindedEventInfo (snd (destroy (snd (on sampleEnv (request ''click'' (Some Container) ''a'' (JFun 1))
        samplePlayer)))) Container =
        [(''click'', Relay 0 (Forward TriggerSync Container ''click'' ''container''))]"
  by (simp add: clicked_once destroy_def kinds_def destroyTarget_def run_defs)

lemma clicked_twice: "snd (on sampleEnv (request ''click'' (Some Container) ''b'' (JFun 2))
     (snd (on sampleEnv (request ''click'' (Some Container) ''a'' (JFun 1)) samplePlayer))) =
  samplePlayer\<lparr>allocated := 1,
     nodeListeners := (\<lambda>_. [])(1 := [(''click'', Relay 0 (Forward TriggerSync Container ''click'' ''container''), False)]),
     bindedEventNames := (\<lambda>_. [])(Container := [''click'']),
     bindedEventInfo := (\<lambda>_. [])(Container := [(''click'', Relay 0 (Forward TriggerSync Container ''click'' ''container''))]),
     buses := (\<lambda>_. \<lparr>events = [], dispatched = []\<rparr>)(Container := \<lparr>events =
        [\<lparr>sub_id = ''a'', sub_name = ''click'', sub_fn = JFun 1, sub_stage = StageMain, sub_once = False\<rparr>,
         \<lparr>sub_id = ''b'', sub_name = ''click'', sub_fn = JFun 2, sub_stage = StageMain, sub_once = False\<rparr>],
        dispatched = []\<rparr>)\<rparr>"
  by (simp add: clicked_once) (simp add: run_defs)

text \<open>Two subscribers of click on the container: one native listener, two subscribers.\<close>

theorem one_relay_two_subscribers_witness:
  "length (nativeListeners
     (snd (on sampleEnv (request ''click'' (Some Container) ''b'' (JFun 2))
        (snd (on sampleEnv (request ''click'' (Some Container) ''a'' (JFun 1)) samplePlayer))))
     Container ''click'') = 1
   \<and> length (subscribersOf (buses
     (snd (on sampleEnv (request ''click'' (Some Container) ''b'' (JFun 2))
        (snd (on sampleEnv (request ''click'' (Some Container) ''a'' (JFun 1)) samplePlayer))))
     Container) ''click'') = 2"
  using one_relay_two_subscribers [of "request ''click'' (Some Container) ''a'' (JFun 1)"
      "request ''click'' (Some Container) ''b'' (JFun 2)" sampleEnv Container "''click''" samplePlayer
      "snd (on sampleEnv (request ''click'' (Some Container) ''a'' (JFun 1)) samplePlayer)"
      "snd (on sampleEnv (request ''click'' (Some Container) ''b'' (JFun 2))
        (snd (on sampleEnv (request ''click'' (Some Container) ''a'' (JFun 1)) samplePlayer)))"]
  by (simp add: clicked_twice) (simp add: run_defs)

text \<open>
  Two subscribers of a plugin event: two subscribers on the bus, and not one native
  listener; no node and no engine has gained a listener.
\<close>

theorem plugin_subscribers_have_no_relay:
  "length (nativeListeners
     (snd (on sampleEnv (request ''ready'' (Some Plugin) ''b'' (JFun 2))
        (snd (on sampleEnv (request ''ready'' (Some Plugin) ''a'' (JFun 1)) samplePlayer))))
     Plugin ''ready'') \<noteq> 1
   \<and> nodeListeners
     (snd (on sampleEnv (request ''ready'' (Some Plugin) ''b'' (JFun 2))
        (snd (on sampleEnv (request ''ready'' (Some Plugin) ''a'' (JFun 1)) samplePlayer)))) =
     nodeListeners samplePlayer
   \<and> kernel
     (snd (on sampleEnv (request ''ready'' (Some Plugin) ''b'' (JFun 2))
        (snd (on sampleEnv (request ''ready'' (Some Plugin) ''a'' (JFun 1)) samplePlayer)))) =
     kernel samplePlayer
   \<and> length (subscribersOf (buses
     (snd (on sampleEnv (request ''ready'' (Some Plugin) ''b'' (JFun 2))
        (snd (on sampleEnv (request ''ready'' (Some Plugin) ''a'' (JFun 1)) samplePlayer))))
     Plugin) ''ready'') = 2"
  by (simp add: run_defs)

lemma clicked_and_released: "snd (off sampleEnv (request ''click'' (Some Container) ''a'' (JFun 1))
     (snd (on sampleEnv (request ''click'' (Some Container) ''a'' (JFun 1)) samplePlayer))) =
  samplePlayer\<lparr>allocated := 1\<rparr>"
  by (simp add: clicked_once) (simp add: run_defs fun_eq_iff)

lemma clicked_and_wheeled: "clickedAndWheeled =
  samplePlayer\<lparr>allocated := 2,
     nodeListeners := (\<lambda>_. [])(1 :=
       [(''click'', Relay 0 (Forward TriggerSync Container ''click'' ''container''), False),
        (''wheel'', Relay 1 (Forward TriggerSync Container ''wheel'' ''container''), True)]),
     bindedEventNames := (\<lambda>_. [])(Container := [''click'', ''wheel'']),
     bindedEventInfo := (\<lambda>_. [])(Container :=
       [(''click'', Relay 0 (Forward TriggerSync Container ''click'' ''container'')),
        (''wheel'', Relay 1 (Forward TriggerSync Container ''wheel'' ''container''))]),
     buses := (\<lambda>_. \<lparr>events = [], dispatched = []\<rparr>)(Container := \<lparr>events =
        [\<lparr>sub_id = ''a'', sub_name = ''click'', sub_fn = JFun 1, sub_stage = StageMain, sub_once = False\<rparr>,
         \<lparr>sub_id = ''b'', sub_name = ''wheel'', sub_fn = JFun 2, sub_stage = StageMain, sub_once = False\<rparr>],
        dispatched = []\<rparr>)\<rparr>"
  unfolding clickedAndWheeled_def by (simp add: clicked_once) (simp add: run_defs)

lemma click_released_wheel_stays:
  "snd (off sampleEnv (request ''click'' (Some Container) ''a'' (JFun 1)) clickedAndWheeled) =
  samplePlayer\<lparr>allocated := 2,
     nodeListeners := (\<lambda>_. [])(1 :=
       [(''wheel'', Relay 1 (Forward TriggerSync Container ''wheel'' ''container''), True)]),
     bindedEventNames := (\<lambda>_. [])(Container := [''wheel'']),
     bindedEventInfo := (\<lambda>_. [])(Container :=
       [(''wheel'', Relay 1 (Forward TriggerSync Container ''wheel'' ''container''))]),
     buses := (\<lambda>_. \<lparr>events = [], dispatched = []\<rparr>)(Container := \<lparr>events =
        [\<lparr>sub_id = ''b'', sub_name = ''wheel'', sub_fn = JFun 2, sub_stage = StageMain, sub_once = False\<rparr>],
        dispatched = []\<rparr>)\<rparr>"
  by (simp add: clicked_and_wheeled) (simp add: run_defs fun_eq_iff)

text \<open>
  On the sample player, with a relay for click and one for wheel on the container: the
  only subscriber of click leaves, the entries and the listener of click go, those of
  wheel stay; then the only subscriber of wheel leaves and the container has no listener.
  With click alone: the last subscriber leaves and the listener goes; one of two leaves
  and it stays; nobody had subscribed and nothing changes.
\<close>

theorem off_tears_down_relay_witness:
  "bindedEventNames
     (snd (off sampleEnv (request ''click'' (Some Container) ''a'' (JFun 1)) clickedAndWheeled))
     Container = [''wheel'']
   \<and> bindedEventInfo
     (snd (off sampleEnv (request ''click'' (Some Container) ''a'' (JFun 1)) clickedAndWheeled))
     Container = [(''wheel'', Relay 1 (Forward TriggerSync Container ''wheel'' ''container''))]
   \<and> nodeListeners
     (snd (off sampleEnv (request ''click'' (Some Container) ''a'' (JFun 1)) clickedAndWheeled)) 1 =
     [(''wheel'', Relay 1 (Forward TriggerSync Container ''wheel'' ''container''), True)]
   \<and> nativeListeners
     (snd (off sampleEnv (request ''click'' (Some Container) ''a'' (JFun 1)) clickedAndWheeled))
     Container ''wheel'' = nativeListeners clickedAndWheeled Container ''wheel''
   \<and> bindedEventNames
     (snd (off sampleEnv (request ''wheel'' (Some Container) ''b'' (JFun 2))
        (snd (off sampleEnv (request ''click'' (Some Container) ''a'' (JFun 1)) clickedAndWheeled))))
     Container = []
   \<and> bindedEventInfo
     (snd (off sampleEnv (request ''wheel'' (Some Container) ''b'' (JFun 2))
        (snd (off sampleEnv (request ''click'' (Some Container) ''a'' (JFun 1)) clickedAndWheeled))))
     Container = []
   \<and> nodeListeners
     (snd (off sampleEnv (request ''wheel'' (Some Container) ''b'' (JFun 2))
        (snd (off sampleEnv (request ''click'' (Some Container) ''a'' (JFun 1)) clickedAndWheeled)))) 1 = []
   \<and> bindedEventNames
     (snd (off sampleEnv (request ''click'' (Some Container) ''a'' (JFun 1))
        (snd (on sampleEnv (request ''click'' (Some Container) ''a'' (JFun 1)) samplePlayer))))
     Container = []
   \<and> nodeListeners
     (snd (off sampleEnv (request ''click'' (Some Container) ''a'' (JFun 1))
        (snd (on sampleEnv (request ''click'' (Some Container) ''a'' (JFun 1)) samplePlayer)))) 1 = []
   \<and> nodeListeners
     (snd (off sampleEnv (request ''click'' (Some Container) ''a'' (JFun 1))
        (snd (on sampleEnv (request ''click'' (Some Container) ''b'' (JFun 2))
          (snd (on sampleEnv (request ''click'' (Some Container) ''a'' (JFun 1)) samplePlayer)))))) 1 =
     [(''click'', Relay 0 (Forward TriggerSync Container ''click'' ''container''), False)]
   \<and> bindedEventNames
     (snd (off sampleEnv (request ''click'' (Some Container) ''a'' (JFun 1)) samplePlayer)) =
     bindedEventNames samplePlayer"
proof -
  let ?click = "request ''click'' (Some Container) ''a'' (JFun 1)"
  let ?wheel = "request ''wheel'' (Some Container) ''b'' (JFun 2)"
  let ?s3 = "snd (off sampleEnv ?click clickedAndWheeled)"
  have r: "resolve sampleEnv ?click =
             (\<lparr>ev_name = ''click'', ev_stage = StageMain, ev_target = Container\<rparr>, [])"
    by (simp add: run_defs)
  have wf: "wellFormedAt sampleEnv clickedAndWheeled Container"
    by (simp add: clicked_and_wheeled wellFormedAt_def isEventNeedToBeHandled_def)
  have sub: "subscribersOf (bus_off ''a'' ''click'' (JFun 1) StageMain
               (buses clickedAndWheeled Container)) ''click'' = []"
    by (simp add: clicked_and_wheeled) (simp add: run_defs)
  let ?b = "bus_off ''a'' ''click'' (JFun 1) StageMain (buses clickedAndWheeled Container)"
  have fn: "isFunction (raw_fn ?click)" by (simp add: request_def)
  have t: "ev_target (fst (resolve sampleEnv ?click)) = Container" using r by simp
  have n: "ev_name (fst (resolve sampleEnv ?click)) = ''click''" using r by simp
  have b: "?b = bus_off (raw_id ?click) ''click'' (raw_fn ?click)
                  (ev_stage (fst (resolve sampleEnv ?click))) (buses clickedAndWheeled Container)"
    using r by (simp add: request_def)
  have s3: "?s3 = snd (off sampleEnv ?click clickedAndWheeled)" by (rule refl)
  have hyp: "wellFormedAt sampleEnv clickedAndWheeled Container \<and>
             ''click'' \<in> set (bindedEventNames clickedAndWheeled Container) \<and>
             subscribersOf ?b ''click'' = [] \<and>
             (Container = Kernel \<longrightarrow> kernel clickedAndWheeled \<noteq> None)"
    using wf sub by (simp add: clicked_and_wheeled)
  note torn = mp [OF off_tears_down_relay [OF fn t n b s3, THEN conjunct1] hyp]
  show ?thesis
    using torn
    by (simp add: click_released_wheel_stays clicked_and_released clicked_twice)
       (simp add: clicked_and_wheeled clicked_once run_defs)
qed

lemma queued_state: "pendingEventsInfo queued Kernel = [(''heartbeat'', ''a''), (''error'', ''b''), (''heartbeat'', ''c'')]
  \<and> kernel queued = None \<and> nodeListeners queued = (\<lambda>_. []) \<and> bindedEventNames queued = (\<lambda>_. [])
  \<and> bindedEventInfo queued = (\<lambda>_. []) \<and> allocated queued = 0 \<and> dom_d queued = sampleDom"
  by (simp add: queued_def run_defs)

lemma queued_flushed:
  "bindedEventInfo (applyPendingEvents sampleEnv Kernel (queued\<lparr>kernel := Some []\<rparr>)) Kernel =
     [(''heartbeat'', Relay 0 (Forward TriggerSync Kernel ''heartbeat'' ''kernel'')),
      (''error'', Relay 1 (Forward TriggerSync Kernel ''error'' ''kernel''))]
   \<and> kernel (applyPendingEvents sampleEnv Kernel (queued\<lparr>kernel := Some []\<rparr>)) =
     Some [(''heartbeat'', Relay 0 (Forward TriggerSync Kernel ''heartbeat'' ''kernel''), False),
           (''error'', Relay 1 (Forward TriggerSync Kernel ''error'' ''kernel''), False)]
   \<and> pendingEventsInfo (applyPendingEvents sampleEnv Kernel (queued\<lparr>kernel := Some []\<rparr>)) Kernel = []
   \<and> bindedEventNames (applyPendingEvents sampleEnv Kernel (queued\<lparr>kernel := Some []\<rparr>)) Kernel =
        [''heartbeat'', ''error'']"
  apply (simp add: applyPendingEvents_def queued_state)
  apply (subst drainPending.simps, simp add: queued_state run_defs)+
  done

lemma queued_in_step: "kernelInStep (queued\<lparr>kernel := Some []\<rparr>)"
  by (simp add: kernelInStep_def nativeListeners_def sourceListeners_def queued_state)

text \<open>
  Three subscriptions queued without an engine, two of them for heartbeat; after the
  engine is attached and the queue flushed there is one listener for each name.
\<close>

theorem pending_queue_flush_witness:
  "kernel queued = None
   \<and> pendingEventsInfo queued Kernel = [(''heartbeat'', ''a''), (''error'', ''b''), (''heartbeat'', ''c'')]
   \<and> nodeListeners queued 3 = []
   \<and> pendingEventsInfo (applyPendingEvents sampleEnv Kernel (queued\<lparr>kernel := Some []\<rparr>)) Kernel = []
   \<and> length (nativeListeners (applyPendingEvents sampleEnv Kernel (queued\<lparr>kernel := Some []\<rparr>))
        Kernel ''heartbeat'') = 1
   \<and> length (nativeListeners (applyPendingEvents sampleEnv Kernel (queued\<lparr>kernel := Some []\<rparr>))
        Kernel ''error'') = 1
   \<and> bindedEventNames (applyPendingEvents sampleEnv Kernel (queued\<lparr>kernel := Some []\<rparr>)) Kernel =
        [''heartbeat'', ''error'']
   \<and> applyPendingEvents sampleEnv Kernel samplePlayer = samplePlayer"
proof -
  note flush = pending_queue_flush [where info = "request ''heartbeat'' None ''a'' (JFun 1)"
      and E = sampleEnv and s = "queued\<lparr>kernel := Some []\<rparr>" and t = Kernel]
  have k: "kernel (queued\<lparr>kernel := Some []\<rparr>) \<noteq> None \<and>
           kernelInStep (queued\<lparr>kernel := Some []\<rparr>)"
    using queued_in_step by simp
  note drained = flush [THEN conjunct2, THEN conjunct2, THEN conjunct1, rule_format, OF k]
  have one: "length (nativeListeners (applyPendingEvents sampleEnv Kernel (queued\<lparr>kernel := Some []\<rparr>))
        Kernel ''heartbeat'') = 1"
    "length (nativeListeners (applyPendingEvents sampleEnv Kernel (queued\<lparr>kernel := Some []\<rparr>))
        Kernel ''error'') = 1"
    using drained by (simp_all add: queued_state)
  have none: "pendingEventsInfo samplePlayer Kernel = []"
    by (simp add: samplePlayer_def newBinder_def)
  note idle = pending_queue_flush [where info = "request ''heartbeat'' None ''a'' (JFun 1)"
      and E = sampleEnv and s = samplePlayer and t = Kernel,
      THEN conjunct2, THEN conjunct2, THEN conjunct2, rule_format, OF none]
  have names: "bindedEventNames (applyPendingEvents sampleEnv Kernel (queued\<lparr>kernel := Some []\<rparr>)) Kernel =
        [''heartbeat'', ''error'']"
    using queued_flushed by simp
  show ?thesis using one idle names drained by (simp add: queued_state)
qed

lemma trackedPlayer_state: "trackedPlayer =
  samplePlayer\<lparr>allocated := 2,
    nodeListeners := (\<lambda>_. [])
      (3 := [(''mouseenter'', Relay 0 (MouseMove ''mouseenter''), False),
             (''mouseleave'', Relay 1 (MouseMove ''mouseleave''), False)],
       4 := [(''mouseenter'', Relay 0 (MouseMove ''mouseenter''), False),
             (''mouseleave'', Relay 1 (MouseMove ''mouseleave''), False)]),
    bindedEventNames := (\<lambda>_. [])(VideoDom := [''mouseenter'', ''mouseleave'']),
    bindedEventInfo := (\<lambda>_. [])(VideoDom := [(''mouseenter'', Relay 0 (MouseMove ''mouseenter'')),
                                          (''mouseleave'', Relay 1 (MouseMove ''mouseleave''))])\<rparr>"
  by (simp add: trackedPlayer_def listenOnMouseMoveEvent_def bindEventOnPenetrateNode_def run_defs
      fun_eq_iff)

text \<open>
  With the flag false, an enter on the extended node coming from the video element (both
  part of the surface) sets the flag and emits a synthetic enter.
\<close>

theorem enter_between_surface_nodes_toggles:
  "isNodeInsideVideo (dom_d trackedPlayer) (Some 3)
   \<and> isNodeInsideVideo (dom_d trackedPlayer) (Some 4)
   \<and> mouseInVideo (dom_d trackedPlayer) = False
   \<and> mouseInVideo (dom_d (nativeEvent sampleEnv 4 (mouse ''mouseenter'' 4 (Some 3)) trackedPlayer)) = True
   \<and> dispatched (buses (nativeEvent sampleEnv 4 (mouse ''mouseenter'' 4 (Some 3)) trackedPlayer) VideoDom) =
       [(TriggerSync, ''mouseenter'', [EventObj (mouse ''mouseenter'' 4 (Some 3))])]"
  by (simp add: trackedPlayer_state nativeEvent_def mouse_def mouseMoveFn_def tracker_emits run_defs)

lemma native_sequence_example:
  "dispatched (buses
     (nativeEvent sampleEnv 4 (mouse ''mouseleave'' 4 (Some 9))
       (nativeEvent sampleEnv 3 (mouse ''mouseleave'' 3 (Some 4))
         (nativeEvent sampleEnv 4 (mouse ''mouseenter'' 4 (Some 3))
           (nativeEvent sampleEnv 3 (mouse ''mouseenter'' 3 (Some 9)) trackedPlayer)))) VideoDom) =
     [(TriggerSync, ''mouseenter'', [EventObj (mouse ''mouseenter'' 3 (Some 9))]),
      (TriggerSync, ''mouseleave'', [EventObj (mouse ''mouseleave'' 4 (Some 9))])]"
  by (simp add: trackedPlayer_state nativeEvent_def mouse_def mouseMoveFn_def tracker_emits run_defs)

text \<open>The sequence on the sample player, and a move between two nodes of the surface.\<close>

theorem pointer_tracker_witness:
  "dispatched (buses
     (track sampleEnv (mouse ''mouseleave'' 4 (Some 9))
       (track sampleEnv (mouse ''mouseleave'' 3 (Some 4))
         (track sampleEnv (mouse ''mouseenter'' 4 (Some 3))
           (track sampleEnv (mouse ''mouseenter'' 3 (Some 9)) trackedPlayer)))) VideoDom) =
     [(TriggerSync, ''mouseenter'', [EventObj (mouse ''mouseenter'' 3 (Some 9))]),
      (TriggerSync, ''mouseleave'', [EventObj (mouse ''mouseleave'' 4 (Some 9))])]
   \<and> mouseMoveFn sampleEnv ''mouseleave'' [EventObj (mouse ''mouseleave'' 3 (Some 4))]
        (trackedPlayer\<lparr>dom_d := sampleDom\<lparr>mouseInVideo := True\<rparr>\<rparr>) =
       (Inr Undefined, trackedPlayer\<lparr>dom_d := sampleDom\<lparr>mouseInVideo := True\<rparr>\<rparr>)
   \<and> mouseMoveFn sampleEnv ''mouseenter'' [EventObj (mouse ''mouseenter'' 4 (Some 3))]
        (trackedPlayer\<lparr>dom_d := sampleDom\<lparr>mouseInVideo := True\<rparr>\<rparr>) =
       (Inr Undefined, trackedPlayer\<lparr>dom_d := sampleDom\<lparr>mouseInVideo := True\<rparr>\<rparr>)"
  using pointer_tracker [where s = trackedPlayer and e = "mouse ''mouseenter'' 3 (Some 9)"
      and parent = 3 and child = 4 and outside = "Some 9" and E = sampleEnv]
    pointer_tracker [where s = "trackedPlayer\<lparr>dom_d := sampleDom\<lparr>mouseInVideo := True\<rparr>\<rparr>"
      and e = "mouse ''mouseleave'' 3 (Some 4)"
      and parent = 3 and child = 4 and outside = "Some 9" and E = sampleEnv]
    pointer_tracker [where s = "trackedPlayer\<lparr>dom_d := sampleDom\<lparr>mouseInVideo := True\<rparr>\<rparr>"
      and e = "mouse ''mouseenter'' 4 (Some 3)"
      and parent = 3 and child = 4 and outside = "Some 9" and E = sampleEnv]
  by (simp add: trackedPlayer_state destination_def mouse_def mouseMoveFn_def tracker_emits track_def run_defs)

subsection \<open>Subscribing once\<close>

text \<open>
  C8. A subscription with \<open>once\<close> (callable handler) registers the subscriber on the
  bus of the resolved target and changes nothing else but the log: the relay tables, the
  pending queues and the native sources of every target kind are as before, also when
  the name has no relay. \<open>on\<close> in the same state records a relay for the name
  whenever the binder handles the pair (with an engine attached, for kernel).
\<close>

theorem once_registers_on_bus_only:
  assumes "isFunction (raw_fn info)"
    and "ev_target (fst (resolve E info)) = t" and "ev_name (fst (resolve E info)) = n"
  shows "once E info s =
           (Inr FromBus,
            s\<lparr>logged := logged s @ snd (resolve E info),
              buses := (buses s)(t :=
                 bus_once (raw_id info) n (raw_fn info) (ev_stage (fst (resolve E info))) (buses s t))\<rparr>)
       \<and> bindedEventInfo (snd (once E info s)) = bindedEventInfo s
       \<and> bindedEventNames (snd (once E info s)) = bindedEventNames s
       \<and> pendingEventsInfo (snd (once E info s)) = pendingEventsInfo s
       \<and> kernel (snd (once E info s)) = kernel s
       \<and> nodeListeners (snd (once E info s)) = nodeListeners s
       \<and> (isEventNeedToBeHandled E t n \<and> n \<notin> set (bindedEventNames s t) \<and>
            (t = Kernel \<longrightarrow> kernel s \<noteq> None) \<longrightarrow>
              n \<in> set (bindedEventNames (snd (on E info s)) t) \<and>
              n \<notin> set (bindedEventNames (snd (once E info s)) t))"
proof -
  have eq: "once E info s =
           (Inr FromBus,
            s\<lparr>logged := logged s @ snd (resolve E info),
              buses := (buses s)(t :=
                 bus_once (raw_id info) n (raw_fn info) (ev_stage (fst (resolve E info))) (buses s t))\<rparr>)"
    using assms by (simp add: once_def before_def prettify_function addLog_def)
  have unlike: "n \<in> set (bindedEventNames (snd (on E info s)) t)"
    if "isEventNeedToBeHandled E t n \<and> n \<notin> set (bindedEventNames s t) \<and>
            (t = Kernel \<longrightarrow> kernel s \<noteq> None)"
  proof -
    from on_attaching [OF assms(1) assms(2) assms(3), of s] that
    obtain fn where "on E info s =
     (Inr FromBus,
      s\<lparr>logged := logged s @ snd (resolve E info),
        allocated := Suc (allocated s),
        kernel := (if t = Kernel then map_option (attach n fn False) (kernel s) else kernel s),
        nodeListeners :=
          (\<lambda>x. if t \<noteq> Kernel \<and> (x = getTargetDom s t \<or>
                     (t = VideoDom \<and> x \<in> set (videoExtendedNodes (dom_d s))))
                then attach n fn (n \<in> set (passiveEvents E)) (nodeListeners s x)
                else nodeListeners s x),
        bindedEventNames := (bindedEventNames s)(t := bindedEventNames s t @ [n]),
        bindedEventInfo := (bindedEventInfo s)(t := bindedEventInfo s t @ [(n, fn)]),
        buses := (buses s)(t :=
            bus_on (raw_id info) n (raw_fn info) (ev_stage (fst (resolve E info))) (buses s t))\<rparr>)"
      by auto
    then show ?thesis by simp
  qed
  show ?thesis using unlike by (simp add: eq)
qed

text \<open>On the sample player: after \<open>once\<close> no relay for click; after \<open>on\<close> there is one.\<close>

theorem once_registers_on_bus_only_witness:
  "bindedEventNames (snd (once sampleEnv (request ''click'' (Some Container) ''a'' (JFun 1)) samplePlayer))
     Container = []
   \<and> nodeListeners (snd (once sampleEnv (request ''click'' (Some Container) ''a'' (JFun 1)) samplePlayer)) 1 = []
   \<and> events (buses (snd (once sampleEnv (request ''click'' (Some Container) ''a'' (JFun 1)) samplePlayer))
       Container) =
       [\<lparr>sub_id = ''a'', sub_name = ''click'', sub_fn = JFun 1, sub_stage = StageMain, sub_once = True\<rparr>]
   \<and> bindedEventNames (snd (on sampleEnv (request ''click'' (Some Container) ''a'' (JFun 1)) samplePlayer))
     Container = [''click'']"
  using once_registers_on_bus_only [where info = "request ''click'' (Some Container) ''a'' (JFun 1)"
      and E = sampleEnv and t = Container and n = "''click''" and s = samplePlayer]
  by (simp add: clicked_once) (simp add: run_defs)

subsection \<open>Well-formed bookkeeping is an invariant\<close>

lemma wellFormedAt_new: "wellFormedAt E (newBinder k d ls) t"
  by (simp add: wellFormedAt_def newBinder_def)

lemma wellFormedAt_add:
  assumes "wellFormedAt E s t"
  shows "wellFormedAt E (addEventListenerOnTarget E n t' i s) t"
proof -
  consider (skip) "\<not> isEventNeedToBeHandled E t' n \<or> n \<in> set (bindedEventNames s t')"
    | (pend) "isEventNeedToBeHandled E t' n" "n \<notin> set (bindedEventNames s t')" "t' = Kernel" "kernel s = None"
    | (att) "isEventNeedToBeHandled E t' n" "n \<notin> set (bindedEventNames s t')" "t' = Kernel \<longrightarrow> kernel s \<noteq> None"
    by blast
  then show ?thesis
  proof cases
    case skip
    then show ?thesis using assms by (simp add: add_skips)
  next
    case pend
    then show ?thesis using assms by (simp add: add_pends addPendingEvent_def wellFormedAt_def)
  next
    case att
    from add_attaches [OF att, of i] obtain fn where
      "addEventListenerOnTarget E n t' i s =
             s\<lparr>allocated := Suc (allocated s),
               kernel := (if t' = Kernel then map_option (attach n fn False) (kernel s) else kernel s),
               nodeListeners :=
                 (\<lambda>x. if t' \<noteq> Kernel \<and> (x = getTargetDom s t' \<or>
                            (t' = VideoDom \<and> x \<in> set (videoExtendedNodes (dom_d s))))
                       then attach n fn (n \<in> set (passiveEvents E)) (nodeListeners s x)
                       else nodeListeners s x),
               bindedEventNames := (bindedEventNames s)(t' := bindedEventNames s t' @ [n]),
               bindedEventInfo := (bindedEventInfo s)(t' := bindedEventInfo s t' @ [(n, fn)])\<rparr>"
      by auto
    then show ?thesis using assms att by (auto simp: wellFormedAt_def)
  qed
qed

lemma wellFormedAt_remove:
  assumes "wellFormedAt E s t"
  shows "wellFormedAt E (snd (removeEventListenerOnTargetWhenIsUseless E n t' s)) t"
proof (cases "wellFormedAt E s t' \<and> n \<in> set (bindedEventNames s t') \<and>
    subscribersOf (buses s t') n = [] \<and> (t' = Kernel \<longrightarrow> kernel s \<noteq> None)")
  case True
  from remove_detaches [of E s t' n] True obtain i fn where
    eq: "removeEventListenerOnTargetWhenIsUseless E n t' s =
             (None,
              s\<lparr>kernel := (if t' = Kernel then map_option (detach n fn) (kernel s) else kernel s),
                nodeListeners :=
                  (\<lambda>x. if t' \<noteq> Kernel \<and> (x = getTargetDom s t' \<or>
                             (t' = VideoDom \<and> x \<in> set (videoExtendedNodes (dom_d s))))
                        then detach n fn (nodeListeners s x)
                        else nodeListeners s x),
                bindedEventInfo := (bindedEventInfo s)(t' := splice1 i (bindedEventInfo s t')),
                bindedEventNames := (bindedEventNames s)(t' := splice1 i (bindedEventNames s t'))\<rparr>)"
    by auto
  have "list_all P (splice1 i xs)" if "list_all P xs" for P and xs :: "string list"
    using that set_splice1 [of i xs] by (auto simp: list_all_iff)
  then show ?thesis
    using assms by (auto simp: eq wellFormedAt_def map_splice1 distinct_splice1)
next
  case False
  show ?thesis
  proof (cases "t' = t")
    case same: True
    have "snd (removeEventListenerOnTargetWhenIsUseless E n t' s) = s
        \<or> (t' = Kernel \<and> kernel s = None)"
      using False assms same remove_noop [of E t' n s] by auto
    moreover have "snd (removeEventListenerOnTargetWhenIsUseless E n t' s) = s"
      if "t' = Kernel" "kernel s = None"
      using that
      by (auto simp: removeEventListenerOnTargetWhenIsUseless_def split: option.splits prod.splits)
    ultimately show ?thesis using assms by auto
  next
    case other: False
    have "bindedEventInfo (snd (removeEventListenerOnTargetWhenIsUseless E n t' s)) t = bindedEventInfo s t
      \<and> bindedEventNames (snd (removeEventListenerOnTargetWhenIsUseless E n t' s)) t = bindedEventNames s t"
      using other
      by (auto simp: removeEventListenerOnTargetWhenIsUseless_def Let_def fold_removeEvent removeEvent_def
          split: option.splits prod.splits sum.splits)
    then show ?thesis using assms by (simp add: wellFormedAt_def)
  qed
qed

lemma wellFormedAt_on:
  assumes "wellFormedAt E s t"
  shows "wellFormedAt E (snd (on E info s)) t"
proof (cases "isFunction (raw_fn info)")
  case True
  have "wellFormedAt E (addLog (snd (resolve E info)) s) t"
    using assms by (simp add: wellFormedAt_def addLog_def)
  then have "wellFormedAt E
      (addEventListenerOnTarget E (ev_name (fst (resolve E info))) (ev_target (fst (resolve E info)))
         (raw_id info) (addLog (snd (resolve E info)) s)) t"
    by (rule wellFormedAt_add)
  then show ?thesis by (simp add: on_function [OF True] wellFormedAt_def)
next
  case False
  then show ?thesis using assms
    by (simp add: on_def before_def prettify_not_function addLog_def wellFormedAt_def)
qed

lemma wellFormedAt_off:
  assumes "wellFormedAt E s t"
  shows "wellFormedAt E (snd (off E info s)) t"
proof (cases "isFunction (raw_fn info)")
  case True
  let ?s1 = "s\<lparr>logged := logged s @ snd (resolve E info),
                buses := (buses s)(ev_target (fst (resolve E info)) :=
                  bus_off (raw_id info) (ev_name (fst (resolve E info))) (raw_fn info)
                    (ev_stage (fst (resolve E info))) (buses s (ev_target (fst (resolve E info)))))\<rparr>"
  have "wellFormedAt E ?s1 t" using assms by (simp add: wellFormedAt_def)
  then have "wellFormedAt E
      (snd (removeEventListenerOnTargetWhenIsUseless E (ev_name (fst (resolve E info)))
             (ev_target (fst (resolve E info))) ?s1)) t"
    by (rule wellFormedAt_remove)
  moreover obtain e s2 where r: "removeEventListenerOnTargetWhenIsUseless E (ev_name (fst (resolve E info)))
             (ev_target (fst (resolve E info))) ?s1 = (e, s2)"
    by (cases "removeEventListenerOnTargetWhenIsUseless E (ev_name (fst (resolve E info)))
             (ev_target (fst (resolve E info))) ?s1")
  ultimately have "wellFormedAt E s2 t" by simp
  then show ?thesis by (cases e) (simp_all add: off_function [OF True] r)
next
  case False
  then show ?thesis using assms
    by (simp add: off_def before_def prettify_not_function addLog_def wellFormedAt_def)
qed

lemma wellFormedAt_once:
  assumes "wellFormedAt E s t"
  shows "wellFormedAt E (snd (once E info s)) t"
  using assms
  by (cases "isFunction (raw_fn info)")
     (simp_all add: once_def before_def prettify_function prettify_not_function addLog_def
        wellFormedAt_def)

lemma wellFormedAt_applyPendingEvents:
  assumes "wellFormedAt E s t"
  shows "wellFormedAt E (applyPendingEvents E t' s) t"
proof -
  have "wellFormedAt E (fold (\<lambda>(n, i). addEventListenerOnTarget E n t' i) q s0) t"
    if "wellFormedAt E s0 t" for q s0
    using that
  proof (induction q arbitrary: s0)
    case Nil
    then show ?case by simp
  next
    case (Cons x q)
    obtain n i where x: "x = (n, i)" by (cases x)
    show ?case using Cons.prems by (simp add: x Cons.IH wellFormedAt_add)
  qed
  moreover have "wellFormedAt E (s\<lparr>pendingEventsInfo := (pendingEventsInfo s)(t' := [])\<rparr>) t"
    using assms by (simp add: wellFormedAt_def)
  ultimately show ?thesis by (simp add: applyPendingEvents_def drainPending_fold)
qed

lemma wellFormedAt_listenOnMouseMoveEvent:
  assumes "wellFormedAt E s t"
  shows "wellFormedAt E (listenOnMouseMoveEvent E node s) t"
proof -
  have "wellFormedAt E
      (fold (\<lambda>name s.
             (let (fn, s1) = newRelay (MouseMove name) s;
                  s2 = addEventOnDom E node name fn s1
              in if name \<notin> set (bindedEventNames s2 VideoDom) then pushBinded VideoDom name fn s2
                 else s2)) names s0) t"
    if "wellFormedAt E s0 t" for names s0
    using that
  proof (induction names arbitrary: s0)
    case Nil
    then show ?case by simp
  next
    case (Cons a names)
    have step: "wellFormedAt E
        (let (fn, s1) = newRelay (MouseMove a) s0;
             s2 = addEventOnDom E node a fn s1
         in if a \<notin> set (bindedEventNames s2 VideoDom) then pushBinded VideoDom a fn s2 else s2) t"
      using Cons.prems
      by (auto simp: Let_def newRelay_def addEventOnDom_eq pushBinded_def wellFormedAt_def
          isEventNeedToBeHandled_def)
    show ?case by (simp only: fold_simps) (rule Cons.IH, rule step)
  qed
  then show ?thesis using assms by (simp add: listenOnMouseMoveEvent_def)
qed

lemma wellFormed_iff: "wellFormed E s \<longleftrightarrow> (\<forall>t. wellFormedAt E s t)"
proof -
  have "t \<in> set kinds" for t by (cases t) (simp_all add: kinds_def)
  then show ?thesis by (auto simp: wellFormed_def list_all_iff)
qed

lemma wellFormed_new: "wellFormed E (newBinder k d ls)"
  by (simp add: wellFormed_iff wellFormedAt_new)

subsection \<open>What teardown leaves behind\<close>

text \<open>
  Whatever the state, \<open>destroy\<close> leaves the bookkeeping of every target kind but
  kernel as it was.
\<close>

lemma destroy_step_frame:
  "bindedEventInfo (let s1 = removeEvent x name fn s
                    in if c then fold (\<lambda>node. removeEvent node name fn)
                                   (videoExtendedNodes (dom_d s1)) s1
                       else s1) = bindedEventInfo s \<and>
   bindedEventNames (let s1 = removeEvent x name fn s
                    in if c then fold (\<lambda>node. removeEvent node name fn)
                                   (videoExtendedNodes (dom_d s1)) s1
                       else s1) = bindedEventNames s"
  by (simp add: Let_def fold_removeEvent) (simp add: removeEvent_def)

lemma destroy_loop_frame:
  "bindedEventInfo (fold (\<lambda>(name, fn) s'.
                            (let s1 = removeEvent x name fn s'
                             in if c then
                                  fold (\<lambda>node. removeEvent node name fn)
                                    (videoExtendedNodes (dom_d s1)) s1
                                else s1)) q s0) = bindedEventInfo s0 \<and>
   bindedEventNames (fold (\<lambda>(name, fn) s'.
                            (let s1 = removeEvent x name fn s'
                             in if c then
                                  fold (\<lambda>node. removeEvent node name fn)
                                    (videoExtendedNodes (dom_d s1)) s1
                                else s1)) q s0) = bindedEventNames s0"
proof (induction q arbitrary: s0)
  case Nil
  show ?case by simp
next
  case (Cons a q)
  obtain n f where a: "a = (n, f)" by (cases a)
  show ?case
    unfolding a fold_simps prod.case
    by (simp only: Cons destroy_step_frame)
qed

lemma destroyTarget_keeps_other_tables:
  assumes "destroyTarget target s = Inr s'" and "t \<noteq> Kernel"
  shows "bindedEventInfo s' t = bindedEventInfo s t \<and> bindedEventNames s' t = bindedEventNames s t"
  using assms destroy_loop_frame [of "getTargetDom s target" "target = VideoDom" "bindedEventInfo s target" s]
  by (auto simp: destroyTarget_def Let_def split: if_splits sum.splits)

lemma destroyKinds_keeps_other_tables:
  assumes "destroyKinds ts s = (r, s')" and "t \<noteq> Kernel"
  shows "bindedEventInfo s' t = bindedEventInfo s t \<and> bindedEventNames s' t = bindedEventNames s t"
  using assms
proof (induction ts arbitrary: s)
  case Nil
  then show ?case by simp
next
  case (Cons a ts)
  show ?case
  proof (cases "destroyTarget a s")
    case (Inl e)
    then show ?thesis using Cons.prems by simp
  next
    case (Inr s1)
    have "bindedEventInfo s' t = bindedEventInfo s1 t \<and> bindedEventNames s' t = bindedEventNames s1 t"
      using Cons.prems Inr by (intro Cons.IH) simp_all
    then show ?thesis using destroyTarget_keeps_other_tables [OF Inr Cons.prems(2)] by simp
  qed
qed

lemma destroy_only_clears_kernel:
  assumes "destroy s = (r, s')" and "t \<noteq> Kernel"
  shows "bindedEventInfo s' t = bindedEventInfo s t \<and> bindedEventNames s' t = bindedEventNames s t"
  using assms by (simp add: destroy_def destroyKinds_keeps_other_tables)

end
